theory Spec2Isabelle
  imports Main
begin

section \<open>The trace harness of the agreement state machines\<close>

text \<open>
  A shallow embedding of \<^verbatim>\<open>agreement/state_machine_test.go\<close>: traces of events, the
  direct-match safety property, the two automaton adapters and the deterministic
  test-case validator.

  Conventions of the embedding.
  \<^item> A Go interface value or pointer that may be \<^verbatim>\<open>nil\<close> is an \<open>option\<close>; \<open>None\<close> is
    \<^verbatim>\<open>nil\<close>.
  \<^item> A Go call that may panic returns a \<open>result\<close>: \<open>Panic r\<close> when the panic leaves
    the function, \<open>Ret v\<close> when it returns \<open>v\<close>.
  \<^item> A method with a pointer receiver that mutates its receiver returns the new
    receiver next to its results.
  \<^item> A value of type \<^verbatim>\<open>error\<close> is an \<open>error option\<close>; the constructors of \<open>error\<close>
    stand for the call sites that build the error, with the data the message is formatted
    from.
  \<^item> The redirection of the process-wide logger (\<^verbatim>\<open>logging.Base().SetOutput\<close>) is left out:
    it touches no trace, no result and no control flow of the functions below.
  \<^item> A recovered panic value is never \<^verbatim>\<open>nil\<close> (Go 1.21 and later turn \<^verbatim>\<open>panic(nil)\<close> into a
    runtime error value).
\<close>

subsection \<open>Events and actions\<close>

text \<open>The event type codes, as \<^verbatim>\<open>agreement/eventtype_string.go\<close> lists them (0 to 41).\<close>

datatype eventType =
    none | votePresent | payloadPresent | bundlePresent
  | voteVerified | payloadVerified | bundleVerified
  | roundInterruption | timeout | fastTimeout | speculationTimeout
  | softThreshold | certThreshold | nextThreshold
  | proposalCommittable | proposalAccepted
  | voteFiltered | voteMalformed | bundleFiltered | bundleMalformed
  | payloadRejected | payloadMalformed | payloadPipelined | payloadAccepted
  | proposalFrozen | voteAccepted | newRound | newPeriod
  | readStaging | readPinned | readLowestValue | readLowestPayload
  | voteFilterRequest | voteFilteredStep
  | nextThresholdStatusRequest | nextThresholdStatus
  | freshestBundleRequest | freshestBundle
  | dumpVotesRequest | dumpVotes
  | wrappedAction | checkpointReached

text \<open>
  Modelled from the spec: the \<^verbatim>\<open>action\<close> interface is declared outside the source files at
  hand. The harness only calls its \<^verbatim>\<open>String()\<close> and \<^verbatim>\<open>ComparableStr()\<close> methods, so an
  action is the pair of what they return.
\<close>

datatype action = Action (action_String: string) (action_ComparableStr: string)

text \<open>
  Modelled from the spec: the \<^verbatim>\<open>event\<close> interface is declared outside the source files at
  hand. An implementation supplies its discriminant tag \<^verbatim>\<open>t()\<close>, a rendering \<^verbatim>\<open>String()\<close>
  and a fingerprint \<^verbatim>\<open>ComparableStr()\<close>; \<open>Event\<close> stands for any implementation but
  \<^verbatim>\<open>wrappedActionEvent\<close>, which the source file defines itself (lines 547 to 561).
\<close>

datatype eventImpl =
    Event eventType string string
  | wrappedActionEvent action

fun event_t :: "eventImpl \<Rightarrow> eventType" where
  "event_t (wrappedActionEvent a) = wrappedAction"
| "event_t (Event ty s c) = ty"

fun event_String :: "eventImpl \<Rightarrow> string" where
  "event_String (wrappedActionEvent a) = action_String a"
| "event_String (Event ty s c) = s"

fun ComparableStr :: "eventImpl \<Rightarrow> string" where
  "ComparableStr (wrappedActionEvent a) = action_ComparableStr a"
| "ComparableStr (Event ty s c) = c"

text \<open>A value of the interface type \<^verbatim>\<open>event\<close>: \<open>None\<close> is the nil event.\<close>

type_synonym event = "eventImpl option"

text \<open>\<^verbatim>\<open>func ev(a action) event\<close> wraps an action as an event.\<close>

definition ev :: "action \<Rightarrow> event" where
  "ev a = Some (wrappedActionEvent a)"

subsection \<open>Panics, errors and slices\<close>

datatype panicVal =
    NilPointerDereference
  | SliceBoundsOutOfRange
  | Unsupported
  | PanicMsg string

datatype 'a result = Panic panicVal | Ret 'a

datatype error =
    ErrNilEvent                         \<comment> \<open>"Cannot extend trace with nil event"\<close>
  | ErrTraceContainsNil                 \<comment> \<open>"Trace contains nil event"\<close>
  | ErrMalformedTestCase                \<comment> \<open>"Malformed test case: ..."\<close>
  | ErrOutputsNil error                 \<comment> \<open>"Outputs cannot contain nil events; %v"\<close>
  | errIOTraceDiverge string string     \<comment> \<open>the struct \<^verbatim>\<open>errIOTraceDiverge{expected, actual}\<close>\<close>
  | ErrPanickedUnexpected error         \<comment> \<open>"Panicked when we were not expecting it: %v"\<close>
  | ErrDidNotPanic                      \<comment> \<open>"Did not panic when we were expecting to"\<close>
  | ErrInconsistentSize                 \<comment> \<open>"Input size (%v) is inconsistent with output size (%v)"\<close>
  | ErrPanickedEarly nat nat error      \<comment> \<open>"Panicked early: %d:%d: %v"\<close>
  | ErrTraceTooShort nat nat            \<comment> \<open>"Trace too short (%d:%d). %v %v"\<close>
  | ErrSafetyPropEval                   \<comment> \<open>"Error evaluating safety property %v"\<close>
  | ErrNotInSafetyProp string           \<comment> \<open>"Trace not in safety property: %v, %s"\<close>
  | ErrHandlerPanic panicVal            \<comment> \<open>\<^verbatim>\<open>fmt.Errorf("%v", r)\<close> in \<^verbatim>\<open>callHandler\<close>\<close>
  | ErrSubmitTopPanic panicVal          \<comment> \<open>\<^verbatim>\<open>fmt.Errorf("Panic: %v", r)\<close> in \<^verbatim>\<open>callSubmitTop\<close>\<close>

text \<open>
  A Go slice where the code tells a nil slice from an empty one: the variadic parameter
  of \<^verbatim>\<open>extend\<close>. \<^verbatim>\<open>f(x)\<close> passes \<open>Slice [x]\<close>, \<^verbatim>\<open>f(xs...)\<close> passes \<open>xs\<close> unchanged, \<^verbatim>\<open>f()\<close>
  passes \<open>NilSlice\<close>, and \<^verbatim>\<open>make([]event, n)\<close> is never nil.
\<close>

datatype 'a slice = NilSlice | Slice "'a list"

subsection \<open>Traces\<close>

text \<open>
  \<^verbatim>\<open>type ioTrace struct { events []event }\<close>. The code reads the field by length, index,
  range and re-slicing only, so whether the field is nil or empty is not kept.
\<close>

record ioTrace =
  events :: "event list"

definition emptyTrace :: ioTrace where
  "emptyTrace = \<lparr>events = []\<rparr>"

definition trace_length :: "ioTrace \<Rightarrow> nat" where
  "trace_length tr = length (events tr)"

text \<open>
  \<^verbatim>\<open>func (t *ioTrace) extend(eventsToAppend ...event) error\<close>: the test is on the slice, not on
  its elements.
\<close>

definition ioTrace_extend :: "ioTrace \<Rightarrow> event slice \<Rightarrow> ioTrace \<times> error option" where
  "ioTrace_extend tr eventsToAppend =
     (case eventsToAppend of
        NilSlice \<Rightarrow> (tr, Some ErrNilEvent)
      | Slice es \<Rightarrow> (tr\<lparr>events := events tr @ es\<rparr>, None))"

fun checkWellFormed_from :: "event list \<Rightarrow> error option" where
  "checkWellFormed_from [] = None"
| "checkWellFormed_from (e # es) =
     (if e = None then Some ErrTraceContainsNil else checkWellFormed_from es)"

definition checkWellFormed :: "ioTrace \<Rightarrow> error option" where
  "checkWellFormed tr = checkWellFormed_from (events tr)"

text \<open>
  \<^verbatim>\<open>func (t *ioTrace) String() string\<close>. Calling \<^verbatim>\<open>ComparableStr\<close> on a nil event panics.
  \<open>i\<close> is the loop index of the first event of the list.
\<close>

definition truncateIOTrace :: bool where
  "truncateIOTrace = False"

definition TruncLen :: nat where
  "TruncLen = 500"

fun String_loop :: "nat \<Rightarrow> event list \<Rightarrow> string result" where
  "String_loop i [] = Ret []"
| "String_loop i (None # es) = Panic NilPointerDereference"
| "String_loop i (Some e # es) =
     (case String_loop (Suc i) es of
        Panic r \<Rightarrow> Panic r
      | Ret s \<Rightarrow>
          Ret ([CHR 0x09] @ ComparableStr e @ '' |''
               @ (if i mod 2 = 0 then [CHR 0x0A] else []) @ s))"

definition ioTrace_String :: "ioTrace \<Rightarrow> string result" where
  "ioTrace_String tr =
     (case String_loop 0 (events tr) of
        Panic r \<Rightarrow> Panic r
      | Ret body \<Rightarrow>
          (let buf = [CHR ''{'', CHR 0x0A] @ body @ [CHR ''}'', CHR 0x0A] in
           if \<not> truncateIOTrace then Ret buf
           else if length buf < TruncLen then Ret buf
           else Ret (''(truncated...)'' @ [CHR 0x09] @ drop (length buf - TruncLen) buf)))"

subsection \<open>Safety properties\<close>

text \<open>
  The interface \<^verbatim>\<open>ioSafetyProp\<close>, as the validator uses it: the method \<^verbatim>\<open>containsTrace\<close>,
  which returns (contains, info, err) or panics.
\<close>

type_synonym ioSafetyProp = "ioTrace \<Rightarrow> (bool \<times> string \<times> error option) result"

definition ioPropAll_containsTrace :: ioSafetyProp where
  "ioPropAll_containsTrace tr = Ret (True, [], None)"

text \<open>
  \<^verbatim>\<open>func (e *directMatchIoSafetyProp) containsTrace(trace ioTrace)\<close>, the loop from index
  \<open>i\<close>. The first argument is the field \<^verbatim>\<open>directMatchTrace\<close>.
\<close>

function directMatch_loop :: "ioTrace \<Rightarrow> ioTrace \<Rightarrow> nat \<Rightarrow> (bool \<times> string \<times> error option) result" where
  "directMatch_loop directMatchTrace tr i =
     (if i < trace_length tr then
        (if i \<ge> trace_length directMatchTrace then Ret (True, [], None)
         else
           (case events tr ! i of
              None \<Rightarrow> Panic NilPointerDereference
            | Some a \<Rightarrow>
                (case events directMatchTrace ! i of
                   None \<Rightarrow> Panic NilPointerDereference
                 | Some b \<Rightarrow>
                     if ComparableStr a \<noteq> ComparableStr b then Ret (False, [], None)
                     else directMatch_loop directMatchTrace tr (Suc i))))
      else Ret (True, [], None))"
  by pat_completeness auto
termination
  by (relation "measure (\<lambda>(d, tr, i). trace_length tr - i)") auto

declare directMatch_loop.simps [simp del]

definition directMatch_containsTrace :: "ioTrace \<Rightarrow> ioSafetyProp" where
  "directMatch_containsTrace directMatchTrace tr = directMatch_loop directMatchTrace tr 0"

subsection \<open>The single-listener adapter\<close>

text \<open>
  The wrapped \<^verbatim>\<open>listener\<close> is declared outside the source files at hand and is taken as a
  parameter: an interface value with its own state \<open>machine\<close> and its method \<open>handle\<close>.
  The static fields \<^verbatim>\<open>routerCtx\<close> and \<^verbatim>\<open>playerCtx\<close> are part of that parameter. One call of
  \<^verbatim>\<open>handle\<close> leaves the machine in a new state, has called the adapter's \<^verbatim>\<open>dispatch\<close> some
  number of times (each call with the event it passed and what \<^verbatim>\<open>routerCtx.dispatch\<close> did
  with it), and then returned an event or panicked.
\<close>

record 'm handled =
  machine_after :: 'm
  dispatches :: "(event \<times> event result) list"
  outcome :: "event result"

record 'm listener =
  machine :: 'm
  handle :: "'m \<Rightarrow> event \<Rightarrow> 'm handled"

datatype routerHandle = RouterHandle

record 'm ioAutomataConcrete =
  listener :: "'m listener option"
  savedHiddenTrace :: ioTrace
  savedTrace :: ioTrace
  rHandle :: "routerHandle option"

definition Concrete_getTrace :: "'m ioAutomataConcrete \<Rightarrow> ioTrace" where
  "Concrete_getTrace w = savedHiddenTrace w"

definition Concrete_resetTrace :: "'m ioAutomataConcrete \<Rightarrow> 'm ioAutomataConcrete" where
  "Concrete_resetTrace w = w\<lparr>savedHiddenTrace := emptyTrace, savedTrace := emptyTrace\<rparr>"

definition Concrete_getTraceVisible :: "'m ioAutomataConcrete \<Rightarrow> ioTrace" where
  "Concrete_getTraceVisible w = savedTrace w"

text \<open>
  \<^verbatim>\<open>func (w *ioAutomataConcrete) dispatch(...)\<close>; \<open>routed\<close> is what the call of
  \<^verbatim>\<open>w.routerCtx.dispatch\<close> does. Both errors of \<^verbatim>\<open>extend\<close> are dropped, as in the source.
\<close>

definition Concrete_dispatch ::
  "'m ioAutomataConcrete \<Rightarrow> event \<Rightarrow> event result \<Rightarrow> 'm ioAutomataConcrete \<times> event result" where
  "Concrete_dispatch w e routed =
     (let w1 = w\<lparr>savedTrace := fst (ioTrace_extend (savedTrace w) (Slice [e]))\<rparr> in
      case routed of
        Panic r \<Rightarrow> (w1, Panic r)
      | Ret out \<Rightarrow> (w1\<lparr>savedTrace := fst (ioTrace_extend (savedTrace w1) (Slice [out]))\<rparr>, Ret out))"

fun dispatch_all ::
  "'m ioAutomataConcrete \<Rightarrow> (event \<times> event result) list \<Rightarrow> 'm ioAutomataConcrete" where
  "dispatch_all w [] = w"
| "dispatch_all w ((e, routed) # ds) = dispatch_all (fst (Concrete_dispatch w e routed)) ds"

text \<open>
  \<^verbatim>\<open>func (w *ioAutomataConcrete) callHandler(inputTraceEvent event) (outEvent event, panicErr error)\<close>.
  The deferred function recovers every panic of the body; a nil \<^verbatim>\<open>listener\<close> panics on the
  method call.
\<close>

definition callHandler ::
  "'m ioAutomataConcrete \<Rightarrow> event \<Rightarrow> 'm ioAutomataConcrete \<times> event \<times> error option" where
  "callHandler w inputTraceEvent =
     (let w1 = (if rHandle w = None then w\<lparr>rHandle := Some RouterHandle\<rparr> else w) in
      case listener w1 of
        None \<Rightarrow> (w1, None, Some (ErrHandlerPanic NilPointerDereference))
      | Some l \<Rightarrow>
          (let h = handle l (machine l) inputTraceEvent;
               w2 = dispatch_all (w1\<lparr>listener := Some (l\<lparr>machine := machine_after h\<rparr>)\<rparr>)
                      (dispatches h)
           in (case outcome h of
                 Panic r \<Rightarrow> (w2, None, Some (ErrHandlerPanic r))
               | Ret outEvent \<Rightarrow> (w2, outEvent, None))))"

text \<open>
  \<^verbatim>\<open>func (w *ioAutomataConcrete) transition(inputTraceEvent event) (err error, panicErr error)\<close>.
\<close>

definition Concrete_transition ::
  "'m ioAutomataConcrete \<Rightarrow> event \<Rightarrow> 'm ioAutomataConcrete \<times> error option \<times> error option" where
  "Concrete_transition w inputTraceEvent =
     (case callHandler w inputTraceEvent of (w1, out, callPanicErr) \<Rightarrow>
        if callPanicErr \<noteq> None then (w1, None, callPanicErr)
        else
          (case ioTrace_extend (savedHiddenTrace w1) (Slice [inputTraceEvent]) of (h1, err1) \<Rightarrow>
             let w2 = w1\<lparr>savedHiddenTrace := h1\<rparr> in
             if err1 \<noteq> None then (w2, err1, None)
             else
               (case ioTrace_extend (savedHiddenTrace w2) (Slice [out]) of (h2, err2) \<Rightarrow>
                  let w3 = w2\<lparr>savedHiddenTrace := h2\<rparr> in
                  if err2 \<noteq> None then (w3, err2, None)
                  else
                    (case ioTrace_extend (savedTrace w3) (Slice [inputTraceEvent]) of (v1, err3) \<Rightarrow>
                       let w4 = w3\<lparr>savedTrace := v1\<rparr> in
                       if err3 \<noteq> None then (w4, err3, None)
                       else
                         (case ioTrace_extend (savedTrace w4) (Slice [out]) of (v2, err4) \<Rightarrow>
                            let w5 = w4\<lparr>savedTrace := v2\<rparr> in
                            if err4 \<noteq> None then (w5, err4, None)
                            else (w5, None, None))))))"

fun Concrete_transitionAll ::
  "'m ioAutomataConcrete \<Rightarrow> event list \<Rightarrow> 'm ioAutomataConcrete \<times> error option \<times> error option" where
  "Concrete_transitionAll w [] = (w, None, None)"
| "Concrete_transitionAll w (input # inputs) =
     (case Concrete_transition w input of (w', err, panicErr) \<Rightarrow>
        if err \<noteq> None \<or> panicErr \<noteq> None then (w', err, panicErr)
        else Concrete_transitionAll w' inputs)"

subsection \<open>The network adapter\<close>

text \<open>
  The wrapped \<^verbatim>\<open>rootRouter\<close> is declared outside the source files at hand and is taken as a
  parameter: the state of the network and what \<^verbatim>\<open>submitTop\<close> does with an event, which
  is to leave the network in a new state and return the actions or panic. Evaluating the
  argument \<^verbatim>\<open>*w.underlying()\<close> belongs to that call.
\<close>

record 'r rootRouter =
  network :: 'r
  submitTop :: "'r \<Rightarrow> event \<Rightarrow> 'r \<times> action list result"

datatype tracer = Tracer

text \<open>The fields \<^verbatim>\<open>*rootRouter\<close>, \<^verbatim>\<open>savedTrace *ioTrace\<close> and \<^verbatim>\<open>t *tracer\<close>, all pointers.\<close>

record 'r ioAutomataConcretePlayer =
  p_rootRouter :: "'r rootRouter option"
  p_savedTrace :: "ioTrace option"
  p_t :: "tracer option"

definition Player_getTrace :: "'r ioAutomataConcretePlayer \<Rightarrow> ioTrace result" where
  "Player_getTrace w =
     (case p_savedTrace w of None \<Rightarrow> Panic NilPointerDereference | Some tr \<Rightarrow> Ret tr)"

definition Player_resetTrace :: "'r ioAutomataConcretePlayer \<Rightarrow> 'r ioAutomataConcretePlayer" where
  "Player_resetTrace w = w\<lparr>p_savedTrace := None\<rparr>"

definition Player_getTraceVisible :: "'r ioAutomataConcretePlayer \<Rightarrow> ioTrace result" where
  "Player_getTraceVisible w = Panic Unsupported"

text \<open>
  \<^verbatim>\<open>extend\<close> called through a pointer that may be nil: the nil test on the argument comes
  before the first access to the receiver.
\<close>

definition extend_ptr :: "ioTrace option \<Rightarrow> event slice \<Rightarrow> (ioTrace option \<times> error option) result" where
  "extend_ptr p eventsToAppend =
     (case p of
        None \<Rightarrow>
          (if eventsToAppend = NilSlice then Ret (None, Some ErrNilEvent)
           else Panic NilPointerDereference)
      | Some tr \<Rightarrow> (case ioTrace_extend tr eventsToAppend of (tr', err) \<Rightarrow> Ret (Some tr', err)))"

text \<open>
  \<^verbatim>\<open>func (w *ioAutomataConcretePlayer) callSubmitTop(inputTraceEvent event) (outEvents []event, panicErr error)\<close>.
  On a panic \<^verbatim>\<open>outEvents\<close> keeps its zero value, the nil slice; otherwise it comes from
  \<^verbatim>\<open>make\<close>.
\<close>

definition callSubmitTop ::
  "'r ioAutomataConcretePlayer \<Rightarrow> event \<Rightarrow> 'r ioAutomataConcretePlayer \<times> event slice \<times> error option" where
  "callSubmitTop w inputTraceEvent =
     (case p_rootRouter w of
        None \<Rightarrow> (w, NilSlice, Some (ErrSubmitTopPanic NilPointerDereference))
      | Some rr \<Rightarrow>
          (case submitTop rr (network rr) inputTraceEvent of (n', res) \<Rightarrow>
             let w1 = w\<lparr>p_rootRouter := Some (rr\<lparr>network := n'\<rparr>)\<rparr> in
             (case res of
                Panic r \<Rightarrow> (w1, NilSlice, Some (ErrSubmitTopPanic r))
              | Ret actions \<Rightarrow> (w1, Slice (map ev actions), None))))"

text \<open>
  \<^verbatim>\<open>func (w *ioAutomataConcretePlayer) transition(inputTraceEvent event) (err error, panicErr error)\<close>.
\<close>

definition Player_transition ::
  "'r ioAutomataConcretePlayer \<Rightarrow> event
     \<Rightarrow> ('r ioAutomataConcretePlayer \<times> error option \<times> error option) result" where
  "Player_transition w inputTraceEvent =
     (let w1 = (if p_savedTrace w = None then w\<lparr>p_savedTrace := Some emptyTrace\<rparr> else w);
          w2 = (if p_t w1 = None then w1\<lparr>p_t := Some Tracer\<rparr> else w1)
      in case callSubmitTop w2 inputTraceEvent of (w3, outEvents, callPanicErr) \<Rightarrow>
        if callPanicErr \<noteq> None then Ret (w3, None, callPanicErr)
        else
          (case extend_ptr (p_savedTrace w3) (Slice [inputTraceEvent]) of
             Panic r \<Rightarrow> Panic r
           | Ret (p1, err1) \<Rightarrow>
               let w4 = w3\<lparr>p_savedTrace := p1\<rparr> in
               if err1 \<noteq> None then Ret (w4, err1, None)
               else
                 (case extend_ptr (p_savedTrace w4) outEvents of
                    Panic r \<Rightarrow> Panic r
                  | Ret (p2, err2) \<Rightarrow>
                      let w5 = w4\<lparr>p_savedTrace := p2\<rparr> in
                      if err2 \<noteq> None then Ret (w5, err2, None)
                      else Ret (w5, None, None))))"

fun Player_transitionAll ::
  "'r ioAutomataConcretePlayer \<Rightarrow> event list
     \<Rightarrow> ('r ioAutomataConcretePlayer \<times> error option \<times> error option) result" where
  "Player_transitionAll w [] = Ret (w, None, None)"
| "Player_transitionAll w (input # inputs) =
     (case Player_transition w input of
        Panic r \<Rightarrow> Panic r
      | Ret (w', err, panicErr) \<Rightarrow>
          if err \<noteq> None \<or> panicErr \<noteq> None then Ret (w', err, panicErr)
          else Player_transitionAll w' inputs)"

subsection \<open>The interface \<^verbatim>\<open>ioAutomata\<close>\<close>

text \<open>An interface value holds one of the two adapters; a method call goes to its method.\<close>

datatype ('m, 'r) ioAutomata =
    Concrete "'m ioAutomataConcrete"
  | ConcretePlayer "'r ioAutomataConcretePlayer"

fun getTrace :: "('m, 'r) ioAutomata \<Rightarrow> ioTrace result" where
  "getTrace (Concrete w) = Ret (Concrete_getTrace w)"
| "getTrace (ConcretePlayer w) = Player_getTrace w"

fun getTraceVisible :: "('m, 'r) ioAutomata \<Rightarrow> ioTrace result" where
  "getTraceVisible (Concrete w) = Ret (Concrete_getTraceVisible w)"
| "getTraceVisible (ConcretePlayer w) = Player_getTraceVisible w"

fun resetTrace :: "('m, 'r) ioAutomata \<Rightarrow> ('m, 'r) ioAutomata" where
  "resetTrace (Concrete w) = Concrete (Concrete_resetTrace w)"
| "resetTrace (ConcretePlayer w) = ConcretePlayer (Player_resetTrace w)"

fun transition ::
  "('m, 'r) ioAutomata \<Rightarrow> event \<Rightarrow> (('m, 'r) ioAutomata \<times> error option \<times> error option) result" where
  "transition (Concrete w) e =
     (case Concrete_transition w e of (w', err, panicErr) \<Rightarrow> Ret (Concrete w', err, panicErr))"
| "transition (ConcretePlayer w) e =
     (case Player_transition w e of
        Panic r \<Rightarrow> Panic r
      | Ret (w', err, panicErr) \<Rightarrow> Ret (ConcretePlayer w', err, panicErr))"

fun transitionAll ::
  "('m, 'r) ioAutomata \<Rightarrow> event list
     \<Rightarrow> (('m, 'r) ioAutomata \<times> error option \<times> error option) result" where
  "transitionAll (Concrete w) inputs =
     (case Concrete_transitionAll w inputs of (w', err, panicErr) \<Rightarrow>
        Ret (Concrete w', err, panicErr))"
| "transitionAll (ConcretePlayer w) inputs =
     (case Player_transitionAll w inputs of
        Panic r \<Rightarrow> Panic r
      | Ret (w', err, panicErr) \<Rightarrow> Ret (ConcretePlayer w', err, panicErr))"

subsection \<open>The deterministic test-case validator\<close>

record determisticTraceTestCase =
  inputs :: "event list"
  expectedOutputs :: "event list"
  safetyProps :: "ioSafetyProp list"

text \<open>
  Lines 428 to 435: \<^verbatim>\<open>allEvents\<close> starts as \<^verbatim>\<open>make([]event, len(expectedOutputs)*2)\<close>, all nil,
  and the loop over the inputs writes a pair for every index that has an expected output.
\<close>

definition allEvents_of :: "event list \<Rightarrow> event list \<Rightarrow> event list" where
  "allEvents_of ins outs =
     fold (\<lambda>i allEvents.
             if i < length outs then allEvents[2 * i := ins ! i, 2 * i + 1 := outs ! i]
             else allEvents)
       [0..<length ins] (replicate (length outs * 2) None)"

definition expectedFinalTrace :: "determisticTraceTestCase \<Rightarrow> ioTrace" where
  "expectedFinalTrace testCase =
     \<lparr>events = allEvents_of (inputs testCase) (expectedOutputs testCase)\<rparr>"

text \<open>
  Lines 459 to 474: the crash expectation against the shape of the test case. \<open>Some\<close> is
  the invalid verdict the function returns there, \<open>None\<close> is falling through.
\<close>

definition crashCrossCheck :: "determisticTraceTestCase \<Rightarrow> error option \<Rightarrow> error option" where
  "crashCrossCheck testCase panicErr =
     (if length (inputs testCase) = length (expectedOutputs testCase) then
        (case panicErr of
           Some pe \<Rightarrow> Some (ErrPanickedUnexpected pe)
         | None \<Rightarrow> None)
      else if length (inputs testCase) = length (expectedOutputs testCase) + 1 then
        (case panicErr of
           None \<Rightarrow> Some ErrDidNotPanic
         | Some pe \<Rightarrow> None)
      else Some ErrInconsistentSize)"

text \<open>
  Lines 476 to 486: \<^verbatim>\<open>outputTraceLen\<close> is the length of the whole trace of the automaton
  (line 445), not of the extension.
\<close>

definition lengthCheck :: "nat \<Rightarrow> ioTrace \<Rightarrow> error option \<Rightarrow> error option" where
  "lengthCheck outputTraceLen expected panicErr =
     (if outputTraceLen < trace_length expected then
        (case panicErr of
           Some pe \<Rightarrow> Some (ErrPanickedEarly outputTraceLen (trace_length expected) pe)
         | None \<Rightarrow> Some (ErrTraceTooShort outputTraceLen (trace_length expected)))
      else None)"

text \<open>Lines 489 to 499: the safety properties, on the whole trace; (invalidErr, runtimeErr).\<close>

fun checkSafetyProps :: "ioSafetyProp list \<Rightarrow> ioTrace \<Rightarrow> (error option \<times> error option) result" where
  "checkSafetyProps [] outputTrace = Ret (None, None)"
| "checkSafetyProps (sp # sps) outputTrace =
     (case sp outputTrace of
        Panic r \<Rightarrow> Panic r
      | Ret (good, msg, err) \<Rightarrow>
          if err \<noteq> None then Ret (None, Some ErrSafetyPropEval)
          else if \<not> good then Ret (Some (ErrNotInSafetyProp msg), None)
          else checkSafetyProps sps outputTrace)"

text \<open>
  Lines 444 to 499, after \<^verbatim>\<open>transitionAll\<close> returned a nil \<^verbatim>\<open>err\<close>: the verdict
  (invalidErr, runtimeErr) from the trace the automaton holds.
\<close>

definition judgeTrace ::
  "determisticTraceTestCase \<Rightarrow> nat \<Rightarrow> ioTrace \<Rightarrow> error option
     \<Rightarrow> (error option \<times> error option) result" where
  "judgeTrace testCase existingTraceLength outputTrace panicErr =
     (let outputTraceLen = trace_length outputTrace in
      if existingTraceLength > length (events outputTrace) then Panic SliceBoundsOutOfRange
      else
        (let outputTraceExtension = \<lparr>events = drop existingTraceLength (events outputTrace)\<rparr> in
         (case directMatch_containsTrace (expectedFinalTrace testCase) outputTraceExtension of
            Panic r \<Rightarrow> Panic r
          | Ret (traceValid, info, runtimeErr) \<Rightarrow>
              if runtimeErr \<noteq> None then Ret (None, runtimeErr)
              else if \<not> traceValid then
                (case ioTrace_String (expectedFinalTrace testCase) of
                   Panic r \<Rightarrow> Panic r
                 | Ret expected \<Rightarrow>
                     (case ioTrace_String outputTraceExtension of
                        Panic r \<Rightarrow> Panic r
                      | Ret actual \<Rightarrow> Ret (Some (errIOTraceDiverge expected actual), None)))
              else
                (case crashCrossCheck testCase panicErr of
                   Some invalidErr \<Rightarrow> Ret (Some invalidErr, None)
                 | None \<Rightarrow>
                     (case lengthCheck outputTraceLen (expectedFinalTrace testCase) panicErr of
                        Some invalidErr \<Rightarrow> Ret (Some invalidErr, None)
                      | None \<Rightarrow> checkSafetyProps (safetyProps testCase) outputTrace)))))"

text \<open>
  \<^verbatim>\<open>func (testCase *determisticTraceTestCase) ValidateAsExtension(automaton ioAutomata) (invalidErr error, runtimeErr error)\<close>.
  The automaton is mutated through the interface; its state after the call is returned
  first.
\<close>

definition ValidateAsExtension ::
  "determisticTraceTestCase \<Rightarrow> ('m, 'r) ioAutomata
     \<Rightarrow> (('m, 'r) ioAutomata \<times> error option \<times> error option) result" where
  "ValidateAsExtension testCase automaton =
     (if length (inputs testCase) \<noteq> length (expectedOutputs testCase)
         \<and> length (inputs testCase) \<noteq> length (expectedOutputs testCase) + 1
      then Ret (automaton, None, Some ErrMalformedTestCase)
      else
        (case getTrace automaton of
           Panic r \<Rightarrow> Panic r
         | Ret existingTrace \<Rightarrow>
             (let existingTraceLength = length (events existingTrace) in
              (case checkWellFormed (expectedFinalTrace testCase) of
                 Some err \<Rightarrow> Ret (automaton, None, Some (ErrOutputsNil err))
               | None \<Rightarrow>
                   (case transitionAll automaton (inputs testCase) of
                      Panic r \<Rightarrow> Panic r
                    | Ret (automaton', err, panicErr) \<Rightarrow>
                        if err \<noteq> None then Ret (automaton', None, err)
                        else
                          (case getTrace automaton' of
                             Panic r \<Rightarrow> Panic r
                           | Ret outputTrace \<Rightarrow>
                               (case judgeTrace testCase existingTraceLength outputTrace panicErr of
                                  Panic r \<Rightarrow> Panic r
                                | Ret (invalidErr, runtimeErr) \<Rightarrow>
                                    Ret (automaton', invalidErr, runtimeErr))))))))"

definition Validate ::
  "determisticTraceTestCase \<Rightarrow> ('m, 'r) ioAutomata
     \<Rightarrow> (('m, 'r) ioAutomata \<times> error option \<times> error option) result" where
  "Validate testCase automaton = ValidateAsExtension testCase automaton"

text \<open>
  What the caller of \<^verbatim>\<open>Validate\<close> or of \<^verbatim>\<open>transitionAll\<close> gets back: the two results
  without the state of the automaton, or the panic.
\<close>

fun results :: "('a \<times> error option \<times> error option) result \<Rightarrow> (error option \<times> error option) result" where
  "results (Panic r) = Panic r"
| "results (Ret (a, err1, err2)) = Ret (err1, err2)"

subsection \<open>Machines for the examples\<close>

text \<open>
  The machine of the scenarios in the specification: it panics on an input whose tag is
  \<^verbatim>\<open>bundleMalformed\<close> and answers every other input with a \<^verbatim>\<open>newRound\<close> event. It keeps no
  state and dispatches nothing.
\<close>

definition newRoundEvent :: event where
  "newRoundEvent = Some (Event newRound ''newRound'' ''newRound'')"

definition newPeriodEvent :: event where
  "newPeriodEvent = Some (Event newPeriod ''newPeriod'' ''newPeriod'')"

definition voteVerifiedEvent :: event where
  "voteVerifiedEvent = Some (Event voteVerified ''voteVerified'' ''voteVerified'')"

definition timeoutEvent :: event where
  "timeoutEvent = Some (Event timeout ''timeout'' ''timeout'')"

definition bundleMalformedEvent :: event where
  "bundleMalformedEvent = Some (Event bundleMalformed ''bundleMalformed'' ''bundleMalformed'')"

definition scenarioHandle :: "unit \<Rightarrow> event \<Rightarrow> unit handled" where
  "scenarioHandle u e =
     (case e of
        None \<Rightarrow> \<lparr>machine_after = u, dispatches = [], outcome = Ret newRoundEvent\<rparr>
      | Some x \<Rightarrow>
          if event_t x = bundleMalformed
          then \<lparr>machine_after = u, dispatches = [], outcome = Panic (PanicMsg ''malformed bundle'')\<rparr>
          else \<lparr>machine_after = u, dispatches = [], outcome = Ret newRoundEvent\<rparr>)"

definition scenarioMachine :: "unit ioAutomataConcrete" where
  "scenarioMachine =
     \<lparr>listener = Some \<lparr>machine = (), handle = scenarioHandle\<rparr>,
      savedHiddenTrace = emptyTrace, savedTrace = emptyTrace, rHandle = None\<rparr>"

text \<open>
  A network adapter as a composite literal that sets the router only: the other fields
  have their zero value, nil. Its network answers every input with no action.
\<close>

definition quietSubmitTop :: "unit \<Rightarrow> event \<Rightarrow> unit \<times> action list result" where
  "quietSubmitTop u e = (u, Ret [])"

definition freshPlayer :: "'r rootRouter \<Rightarrow> 'r ioAutomataConcretePlayer" where
  "freshPlayer rr = \<lparr>p_rootRouter = Some rr, p_savedTrace = None, p_t = None\<rparr>"

definition quietPlayer :: "unit ioAutomataConcretePlayer" where
  "quietPlayer = freshPlayer \<lparr>network = (), submitTop = quietSubmitTop\<rparr>"

subsection \<open>Test cases for the examples\<close>

definition malformedCase :: determisticTraceTestCase where
  "malformedCase = \<lparr>inputs = [], expectedOutputs = [newRoundEvent], safetyProps = []\<rparr>"

definition crashCase :: determisticTraceTestCase where
  "crashCase =
     \<lparr>inputs = [voteVerifiedEvent, bundleMalformedEvent],
      expectedOutputs = [newRoundEvent], safetyProps = [ioPropAll_containsTrace]\<rparr>"

definition unexpectedCrashCase :: determisticTraceTestCase where
  "unexpectedCrashCase =
     \<lparr>inputs = [voteVerifiedEvent, bundleMalformedEvent],
      expectedOutputs = [newRoundEvent, newPeriodEvent], safetyProps = []\<rparr>"

definition noCrashCase :: determisticTraceTestCase where
  "noCrashCase =
     \<lparr>inputs = [voteVerifiedEvent, timeoutEvent],
      expectedOutputs = [newRoundEvent], safetyProps = [ioPropAll_containsTrace]\<rparr>"

definition divergeCase :: determisticTraceTestCase where
  "divergeCase =
     \<lparr>inputs = [voteVerifiedEvent, bundleMalformedEvent],
      expectedOutputs = [newPeriodEvent, newPeriodEvent], safetyProps = []\<rparr>"

definition earlyPanicCase :: determisticTraceTestCase where
  "earlyPanicCase =
     \<lparr>inputs = [bundleMalformedEvent, bundleMalformedEvent],
      expectedOutputs = [newRoundEvent], safetyProps = []\<rparr>"

text \<open>The two example adapters after the input \<^verbatim>\<open>voteVerified\<close>.\<close>

definition drivenMachine :: "unit ioAutomataConcrete" where
  "drivenMachine =
     \<lparr>listener = Some \<lparr>machine = (), handle = scenarioHandle\<rparr>,
      savedHiddenTrace = \<lparr>events = [voteVerifiedEvent, newRoundEvent]\<rparr>,
      savedTrace = \<lparr>events = [voteVerifiedEvent, newRoundEvent]\<rparr>,
      rHandle = Some RouterHandle\<rparr>"

text \<open>The single-listener example after the inputs \<^verbatim>\<open>voteVerified\<close> and \<^verbatim>\<open>timeout\<close>.\<close>

definition twiceDrivenMachine :: "unit ioAutomataConcrete" where
  "twiceDrivenMachine =
     \<lparr>listener = Some \<lparr>machine = (), handle = scenarioHandle\<rparr>,
      savedHiddenTrace =
        \<lparr>events = [voteVerifiedEvent, newRoundEvent, timeoutEvent, newRoundEvent]\<rparr>,
      savedTrace =
        \<lparr>events = [voteVerifiedEvent, newRoundEvent, timeoutEvent, newRoundEvent]\<rparr>,
      rHandle = Some RouterHandle\<rparr>"

definition drivenPlayer :: "unit ioAutomataConcretePlayer" where
  "drivenPlayer =
     \<lparr>p_rootRouter = Some \<lparr>network = (), submitTop = quietSubmitTop\<rparr>,
      p_savedTrace = Some \<lparr>events = [voteVerifiedEvent]\<rparr>, p_t = Some Tracer\<rparr>"

subsection \<open>Fingerprints, and the claim's reading of direct match\<close>

text \<open>The fingerprint of an event of a trace; a nil event has none.\<close>

definition fingerprint :: "event \<Rightarrow> string option" where
  "fingerprint e = map_option ComparableStr e"

text \<open>
  The direct-match property as claim C4 words it, for comparison with the code: at every
  index within the bounds of the reference trace the candidate has an event, and its
  fingerprint is the reference's at that index.
\<close>

definition spec_directMatch :: "ioTrace \<Rightarrow> ioTrace \<Rightarrow> bool" where
  "spec_directMatch d tr =
     list_all (\<lambda>i. i < length (events tr)
                   \<and> fingerprint (events tr ! i) = fingerprint (events d ! i))
       [0..<length (events d)]"

text \<open>Traces for the examples.\<close>

definition shortTrace :: ioTrace where
  "shortTrace = \<lparr>events = [voteVerifiedEvent]\<rparr>"

definition pairTrace :: ioTrace where
  "pairTrace = \<lparr>events = [voteVerifiedEvent, newRoundEvent]\<rparr>"

definition otherPairTrace :: ioTrace where
  "otherPairTrace = \<lparr>events = [voteVerifiedEvent, newPeriodEvent]\<rparr>"

text \<open>
  A network that panics on an input whose tag is \<^verbatim>\<open>bundleMalformed\<close> and answers every other
  input with no action; the adapter around it, fresh, after that panic (it then holds an
  empty trace) and after a further input \<^verbatim>\<open>voteVerified\<close>.
\<close>

definition strictSubmitTop :: "unit \<Rightarrow> event \<Rightarrow> unit \<times> action list result" where
  "strictSubmitTop u e =
     (case e of
        None \<Rightarrow> (u, Ret [])
      | Some x \<Rightarrow>
          if event_t x = bundleMalformed then (u, Panic (PanicMsg ''malformed bundle''))
          else (u, Ret []))"

definition strictPlayer :: "unit ioAutomataConcretePlayer" where
  "strictPlayer = freshPlayer \<lparr>network = (), submitTop = strictSubmitTop\<rparr>"

definition idlePlayer :: "unit ioAutomataConcretePlayer" where
  "idlePlayer =
     \<lparr>p_rootRouter = Some \<lparr>network = (), submitTop = strictSubmitTop\<rparr>,
      p_savedTrace = Some emptyTrace, p_t = Some Tracer\<rparr>"

definition busyPlayer :: "unit ioAutomataConcretePlayer" where
  "busyPlayer =
     \<lparr>p_rootRouter = Some \<lparr>network = (), submitTop = strictSubmitTop\<rparr>,
      p_savedTrace = Some \<lparr>events = [voteVerifiedEvent]\<rparr>, p_t = Some Tracer\<rparr>"

text \<open>More test cases for the examples.\<close>

definition unexpectedEarlyCase :: determisticTraceTestCase where
  "unexpectedEarlyCase =
     \<lparr>inputs = [bundleMalformedEvent], expectedOutputs = [newRoundEvent], safetyProps = []\<rparr>"

definition onePairCase :: determisticTraceTestCase where
  "onePairCase =
     \<lparr>inputs = [voteVerifiedEvent], expectedOutputs = [newRoundEvent], safetyProps = []\<rparr>"

section \<open>Properties\<close>

subsection \<open>Extending a trace\<close>

lemma extend_Slice: "ioTrace_extend tr (Slice es) = (tr\<lparr>events := events tr @ es\<rparr>, None)"
  by (simp add: ioTrace_extend_def)

lemma extend_NilSlice: "ioTrace_extend tr NilSlice = (tr, Some ErrNilEvent)"
  by (simp add: ioTrace_extend_def)

lemma checkWellFormed_from_nil_last:
  "checkWellFormed_from (es @ [None]) = Some ErrTraceContainsNil"
  by (induction es) simp_all

text \<open>
  C1. The specification asks that \<^verbatim>\<open>extend\<close> fail on a list that holds a nil event. The
  code tests the variadic slice, not its elements: \<^verbatim>\<open>t.extend(nil)\<close> passes the one-element
  slice \<open>[nil]\<close>, which is not the nil slice, so the call returns a nil error, the nil
  event is appended, and the trace it leaves is not well formed.
\<close>

theorem extend_nil_event_not_rejected:
  "ioTrace_extend tr (Slice [None]) = (tr\<lparr>events := events tr @ [None]\<rparr>, None)
   \<and> checkWellFormed (fst (ioTrace_extend tr (Slice [None]))) = Some ErrTraceContainsNil"
  by (simp add: ioTrace_extend_def checkWellFormed_def checkWellFormed_from_nil_last)

subsection \<open>The error channel of the adapters\<close>

lemma Concrete_transition_err: "\<exists>w' pe. Concrete_transition w e = (w', None, pe)"
  by (auto simp: Concrete_transition_def extend_Slice Let_def split: prod.splits)

lemma Concrete_transitionAll_err: "\<exists>w' pe. Concrete_transitionAll w ins = (w', None, pe)"
proof (induction ins arbitrary: w)
  case Nil
  show ?case by simp
next
  case (Cons i ins)
  obtain w1 pe1 where t: "Concrete_transition w i = (w1, None, pe1)"
    using Concrete_transition_err by blast
  show ?case
  proof (cases pe1)
    case None
    with t Cons.IH [of w1] show ?thesis by simp
  next
    case (Some p)
    with t show ?thesis by simp
  qed
qed

lemma callSubmitTop_savedTrace:
  "callSubmitTop w e = (w1, es, pe) \<Longrightarrow> p_savedTrace w1 = p_savedTrace w"
  by (auto simp: callSubmitTop_def Let_def split: option.splits result.splits prod.splits)

text \<open>Without a panic the slice of output events comes from \<^verbatim>\<open>make\<close> and is not nil.\<close>

lemma callSubmitTop_cases:
  "(\<exists>w1 es. callSubmitTop w e = (w1, Slice es, None))
   \<or> (\<exists>w1 r. callSubmitTop w e = (w1, NilSlice, Some (ErrSubmitTopPanic r)))"
  by (auto simp: callSubmitTop_def Let_def split: option.splits result.splits prod.splits)

text \<open>
  The network adapter's \<^verbatim>\<open>transition\<close> returns: no panic leaves it, its first result is
  nil, and it leaves a trace behind.
\<close>

lemma Player_transition_err:
  "\<exists>w' pe. Player_transition w e = Ret (w', None, pe) \<and> p_savedTrace w' \<noteq> None"
proof -
  define w2 where "w2 =
    (let w1 = (if p_savedTrace w = None then w\<lparr>p_savedTrace := Some emptyTrace\<rparr> else w)
     in if p_t w1 = None then w1\<lparr>p_t := Some Tracer\<rparr> else w1)"
  have s2: "p_savedTrace w2 \<noteq> None"
    by (simp add: w2_def Let_def)
  have unfold: "Player_transition w e =
     (case callSubmitTop w2 e of (w3, outEvents, callPanicErr) \<Rightarrow>
        if callPanicErr \<noteq> None then Ret (w3, None, callPanicErr)
        else
          (case extend_ptr (p_savedTrace w3) (Slice [e]) of
             Panic r \<Rightarrow> Panic r
           | Ret (p1, err1) \<Rightarrow>
               let w4 = w3\<lparr>p_savedTrace := p1\<rparr> in
               if err1 \<noteq> None then Ret (w4, err1, None)
               else
                 (case extend_ptr (p_savedTrace w4) outEvents of
                    Panic r \<Rightarrow> Panic r
                  | Ret (p2, err2) \<Rightarrow>
                      let w5 = w4\<lparr>p_savedTrace := p2\<rparr> in
                      if err2 \<noteq> None then Ret (w5, err2, None)
                      else Ret (w5, None, None))))"
    by (simp add: Player_transition_def w2_def Let_def)
  from callSubmitTop_cases [of w2 e] show ?thesis
  proof
    assume "\<exists>w1 es. callSubmitTop w2 e = (w1, Slice es, None)"
    then obtain w3 es where c: "callSubmitTop w2 e = (w3, Slice es, None)" by blast
    from callSubmitTop_savedTrace [OF c] s2 obtain tr where tr: "p_savedTrace w3 = Some tr"
      by auto
    show ?thesis
      by (simp add: unfold c tr extend_ptr_def extend_Slice Let_def)
  next
    assume "\<exists>w1 r. callSubmitTop w2 e = (w1, NilSlice, Some (ErrSubmitTopPanic r))"
    then obtain w3 r where c: "callSubmitTop w2 e = (w3, NilSlice, Some (ErrSubmitTopPanic r))"
      by blast
    from callSubmitTop_savedTrace [OF c] s2 have "p_savedTrace w3 \<noteq> None" by simp
    then show ?thesis by (simp add: unfold c)
  qed
qed

lemma Player_transitionAll_err: "\<exists>w' pe. Player_transitionAll w ins = Ret (w', None, pe)"
proof (induction ins arbitrary: w)
  case Nil
  show ?case by simp
next
  case (Cons i ins)
  obtain w1 pe1 where t: "Player_transition w i = Ret (w1, None, pe1)"
    using Player_transition_err by blast
  show ?case
  proof (cases pe1)
    case None
    with t Cons.IH [of w1] show ?thesis by simp
  next
    case (Some p)
    with t show ?thesis by simp
  qed
qed

text \<open>
  C10. For both adapters and every input, \<^verbatim>\<open>transition\<close> and \<^verbatim>\<open>transitionAll\<close> return, and
  their first result, the ordinary \<^verbatim>\<open>err\<close>, is nil: every call of \<^verbatim>\<open>extend\<close> gets a slice that
  is not nil, so the branches that would return its error are never taken. The only
  failure an adapter reports is the typed panic error, the second result.
\<close>

theorem adapters_err_always_nil:
  "(\<exists>a' panicErr. transition a e = Ret (a', None, panicErr)) \<and>
   (\<exists>a' panicErr. transitionAll a ins = Ret (a', None, panicErr))"
proof (cases a)
  case (Concrete w)
  obtain w1 pe1 where "Concrete_transition w e = (w1, None, pe1)"
    using Concrete_transition_err by blast
  moreover obtain w2 pe2 where "Concrete_transitionAll w ins = (w2, None, pe2)"
    using Concrete_transitionAll_err by blast
  ultimately show ?thesis using Concrete by simp
next
  case (ConcretePlayer w)
  obtain w1 pe1 where "Player_transition w e = Ret (w1, None, pe1)"
    using Player_transition_err by blast
  moreover obtain w2 pe2 where "Player_transitionAll w ins = Ret (w2, None, pe2)"
    using Player_transitionAll_err by blast
  ultimately show ?thesis using ConcretePlayer by simp
qed

subsection \<open>The shape of a test case\<close>

text \<open>
  C6. A test case whose inputs are neither as many as its expected outputs nor one more
  is refused at once: \<^verbatim>\<open>Validate\<close> returns a nil invalid verdict and the malformed-test-case
  error as its runtime error, and the automaton is the one it was given, not driven by any
  input.
\<close>

theorem Validate_malformed_shape:
  "length (inputs testCase) \<noteq> length (expectedOutputs testCase) \<Longrightarrow>
   length (inputs testCase) \<noteq> length (expectedOutputs testCase) + 1 \<Longrightarrow>
   Validate testCase automaton = Ret (automaton, None, Some ErrMalformedTestCase)"
  by (simp add: Validate_def ValidateAsExtension_def)

theorem Validate_malformed_shape_witness:
  "length (inputs malformedCase) \<noteq> length (expectedOutputs malformedCase) \<and>
   length (inputs malformedCase) \<noteq> length (expectedOutputs malformedCase) + 1 \<and>
   Validate malformedCase (ConcretePlayer quietPlayer :: (unit, unit) ioAutomata)
     = Ret (ConcretePlayer quietPlayer, None, Some ErrMalformedTestCase)"
  using Validate_malformed_shape [of malformedCase "ConcretePlayer quietPlayer"]
  by (simp add: malformedCase_def)

subsection \<open>The example adapters\<close>

lemma scenario_panics:
  "outcome (scenarioHandle () bundleMalformedEvent) = Panic (PanicMsg ''malformed bundle'')"
  by (simp add: scenarioHandle_def bundleMalformedEvent_def)

lemma scenario_returns:
  "scenarioHandle () voteVerifiedEvent
     = \<lparr>machine_after = (), dispatches = [], outcome = Ret newRoundEvent\<rparr>"
  by (simp add: scenarioHandle_def voteVerifiedEvent_def)

lemma scenarioMachine_driven:
  "Concrete_transition scenarioMachine voteVerifiedEvent = (drivenMachine, None, None)"
  by (simp add: Concrete_transition_def callHandler_def scenarioMachine_def drivenMachine_def
      scenario_returns extend_Slice emptyTrace_def Let_def)

lemma quietPlayer_driven:
  "Player_transition quietPlayer voteVerifiedEvent = Ret (drivenPlayer, None, None)"
  by (simp add: Player_transition_def quietPlayer_def freshPlayer_def drivenPlayer_def
      callSubmitTop_def quietSubmitTop_def extend_ptr_def ioTrace_extend_def emptyTrace_def Let_def)

subsection \<open>The traces of the single-listener adapter\<close>

lemma dispatch_hidden [simp]:
  "savedHiddenTrace (fst (Concrete_dispatch w e routed)) = savedHiddenTrace w"
  by (simp add: Concrete_dispatch_def Let_def split: result.splits)

lemma dispatch_visible:
  "\<exists>ds. events (savedTrace (fst (Concrete_dispatch w e routed))) = events (savedTrace w) @ ds"
  by (simp add: Concrete_dispatch_def Let_def extend_Slice split: result.splits)

lemma dispatch_all_hidden [simp]:
  "savedHiddenTrace (dispatch_all w ds) = savedHiddenTrace w"
  by (induction w ds rule: dispatch_all.induct) simp_all

lemma dispatch_all_visible:
  "\<exists>xs. events (savedTrace (dispatch_all w ds)) = events (savedTrace w) @ xs"
proof (induction w ds rule: dispatch_all.induct)
  case (1 w)
  show ?case by simp
next
  case (2 w e routed ds)
  from dispatch_visible [of w e routed] obtain xs where
    "events (savedTrace (fst (Concrete_dispatch w e routed))) = events (savedTrace w) @ xs" ..
  with "2.IH" show ?case by auto
qed

text \<open>\<^verbatim>\<open>callHandler\<close> either returns the handler's event or the typed panic error.\<close>

lemma callHandler_cases:
  "(\<exists>w1 out. callHandler w e = (w1, out, None))
   \<or> (\<exists>w1 r. callHandler w e = (w1, None, Some (ErrHandlerPanic r)))"
  by (auto simp: callHandler_def Let_def split: option.splits result.splits)

lemma callHandler_hidden:
  "callHandler w e = (w1, out, pe) \<Longrightarrow> savedHiddenTrace w1 = savedHiddenTrace w"
  by (auto simp: callHandler_def Let_def split: option.splits result.splits if_splits)

lemma callHandler_visible:
  assumes c: "callHandler w e = (w1, out, pe)"
  shows "\<exists>xs. events (savedTrace w1) = events (savedTrace w) @ xs"
proof -
  define w0 where "w0 = (if rHandle w = None then w\<lparr>rHandle := Some RouterHandle\<rparr> else w)"
  have v0: "savedTrace w0 = savedTrace w"
    by (simp add: w0_def)
  show ?thesis
  proof (cases "listener w0")
    case None
    with c have "w1 = w0"
      by (simp add: callHandler_def w0_def Let_def)
    with v0 show ?thesis by simp
  next
    case (Some l)
    define h where "h = handle l (machine l) e"
    define w' where "w' = w0\<lparr>listener := Some (l\<lparr>machine := machine_after h\<rparr>)\<rparr>"
    from c Some have "w1 = dispatch_all w' (dispatches h)"
      by (auto simp: callHandler_def w0_def h_def w'_def Let_def split: result.splits)
    moreover from dispatch_all_visible [of w' "dispatches h"] obtain xs where
      "events (savedTrace (dispatch_all w' (dispatches h))) = events (savedTrace w') @ xs" ..
    moreover have "savedTrace w' = savedTrace w"
      by (simp add: w'_def v0)
    ultimately show ?thesis by simp
  qed
qed

lemma callHandler_panic:
  "listener w = Some l \<Longrightarrow> outcome (handle l (machine l) e) = Panic r \<Longrightarrow>
   \<exists>w1. callHandler w e = (w1, None, Some (ErrHandlerPanic r))"
  by (simp add: callHandler_def Let_def)

lemma callHandler_return:
  "listener w = Some l \<Longrightarrow> outcome (handle l (machine l) e) = Ret out \<Longrightarrow>
   \<exists>w1. callHandler w e = (w1, out, None)"
  by (simp add: callHandler_def Let_def)

lemma Concrete_transition_panicked:
  "callHandler w e = (w1, out, Some pe) \<Longrightarrow> Concrete_transition w e = (w1, None, Some pe)"
  by (simp add: Concrete_transition_def)

lemma Concrete_transition_returned:
  "callHandler w e = (w1, out, None) \<Longrightarrow>
   Concrete_transition w e =
     (w1\<lparr>savedHiddenTrace := \<lparr>events = events (savedHiddenTrace w1) @ [e, out]\<rparr>,
         savedTrace := \<lparr>events = events (savedTrace w1) @ [e, out]\<rparr>\<rparr>, None, None)"
  by (simp add: Concrete_transition_def extend_Slice Let_def)

text \<open>
  A transition that reports no panic has appended the pair of the input and the output
  to both traces; the visible trace also holds what was dispatched in between.
\<close>

lemma Concrete_transition_parallel:
  assumes t: "Concrete_transition w e = (w', None, None)"
  shows "\<exists>out xs. events (savedHiddenTrace w') = events (savedHiddenTrace w) @ [e, out]
            \<and> events (savedTrace w') = events (savedTrace w) @ xs @ [e, out]"
  using callHandler_cases [of w e]
proof
  assume "\<exists>w1 out. callHandler w e = (w1, out, None)"
  then obtain w1 out where c: "callHandler w e = (w1, out, None)" by blast
  from callHandler_visible [OF c] obtain xs where
    v: "events (savedTrace w1) = events (savedTrace w) @ xs" ..
  from Concrete_transition_returned [OF c] t have
    "w' = w1\<lparr>savedHiddenTrace := \<lparr>events = events (savedHiddenTrace w1) @ [e, out]\<rparr>,
             savedTrace := \<lparr>events = events (savedTrace w1) @ [e, out]\<rparr>\<rparr>"
    by simp
  with callHandler_hidden [OF c] v show ?thesis by simp
next
  assume "\<exists>w1 r. callHandler w e = (w1, None, Some (ErrHandlerPanic r))"
  then obtain w1 r where c: "callHandler w e = (w1, None, Some (ErrHandlerPanic r))" by blast
  from Concrete_transition_panicked [OF c] t show ?thesis by simp
qed

text \<open>
  C7. For the single-listener adapter: when the wrapped handler panics on the input,
  \<^verbatim>\<open>transition\<close> returns (no panic leaves it) with a nil \<^verbatim>\<open>err\<close> and the typed panic error,
  and the hidden trace is what it was. When the handler returns an event, \<^verbatim>\<open>transition\<close>
  returns two nil errors and the pair of the input and that event is appended to the
  hidden trace and to the visible trace.
\<close>

theorem transition_handler_panic:
  assumes l: "listener w = Some l"
  shows "(outcome (handle l (machine l) e) = Panic r \<longrightarrow>
            (\<exists>w'. transition (Concrete w) e = Ret (Concrete w', None, Some (ErrHandlerPanic r))
                 \<and> savedHiddenTrace w' = savedHiddenTrace w))
       \<and> (outcome (handle l (machine l) e) = Ret out \<longrightarrow>
            (\<exists>w' xs. transition (Concrete w) e = Ret (Concrete w', None, None)
                 \<and> events (savedHiddenTrace w') = events (savedHiddenTrace w) @ [e, out]
                 \<and> events (savedTrace w') = events (savedTrace w) @ xs @ [e, out]))"
proof (intro conjI impI)
  assume "outcome (handle l (machine l) e) = Panic r"
  from callHandler_panic [OF l this] obtain w1 where
    c: "callHandler w e = (w1, None, Some (ErrHandlerPanic r))" ..
  from Concrete_transition_panicked [OF c] callHandler_hidden [OF c]
  show "\<exists>w'. transition (Concrete w) e = Ret (Concrete w', None, Some (ErrHandlerPanic r))
            \<and> savedHiddenTrace w' = savedHiddenTrace w"
    by simp
next
  assume "outcome (handle l (machine l) e) = Ret out"
  from callHandler_return [OF l this] obtain w1 where
    c: "callHandler w e = (w1, out, None)" ..
  from callHandler_visible [OF c] obtain xs where
    v: "events (savedTrace w1) = events (savedTrace w) @ xs" ..
  from Concrete_transition_returned [OF c] callHandler_hidden [OF c] v
  show "\<exists>w' xs. transition (Concrete w) e = Ret (Concrete w', None, None)
                 \<and> events (savedHiddenTrace w') = events (savedHiddenTrace w) @ [e, out]
                 \<and> events (savedTrace w') = events (savedTrace w) @ xs @ [e, out]"
    by simp
qed

theorem transition_handler_panic_witness:
  "listener scenarioMachine = Some \<lparr>machine = (), handle = scenarioHandle\<rparr>
   \<and> outcome (scenarioHandle () bundleMalformedEvent) = Panic (PanicMsg ''malformed bundle'')
   \<and> (\<exists>w'. transition (Concrete scenarioMachine :: (unit, unit) ioAutomata) bundleMalformedEvent
           = Ret (Concrete w', None, Some (ErrHandlerPanic (PanicMsg ''malformed bundle'')))
         \<and> savedHiddenTrace w' = emptyTrace)
   \<and> outcome (scenarioHandle () voteVerifiedEvent) = Ret newRoundEvent
   \<and> (\<exists>w'. transition (Concrete scenarioMachine :: (unit, unit) ioAutomata) voteVerifiedEvent
           = Ret (Concrete w', None, None)
         \<and> events (savedHiddenTrace w') = [voteVerifiedEvent, newRoundEvent])"
proof -
  have l: "listener scenarioMachine = Some \<lparr>machine = (), handle = scenarioHandle\<rparr>"
    by (simp add: scenarioMachine_def)
  have r: "outcome (scenarioHandle () voteVerifiedEvent) = Ret newRoundEvent"
    by (simp add: scenario_returns)
  from transition_handler_panic [OF l, of bundleMalformedEvent "PanicMsg ''malformed bundle''"]
    scenario_panics
  have 1: "\<exists>w'. transition (Concrete scenarioMachine :: (unit, unit) ioAutomata) bundleMalformedEvent
           = Ret (Concrete w', None, Some (ErrHandlerPanic (PanicMsg ''malformed bundle'')))
         \<and> savedHiddenTrace w' = emptyTrace"
    by (simp add: scenarioMachine_def)
  from transition_handler_panic [OF l, of voteVerifiedEvent _ newRoundEvent] r
  have 2: "\<exists>w'. transition (Concrete scenarioMachine :: (unit, unit) ioAutomata) voteVerifiedEvent
           = Ret (Concrete w', None, None)
         \<and> events (savedHiddenTrace w') = [voteVerifiedEvent, newRoundEvent]"
    by (auto simp: scenarioMachine_def emptyTrace_def)
  from l scenario_panics 1 r 2 show ?thesis by blast
qed

subsection \<open>The visible trace\<close>

text \<open>
  C5, as the claim states it, fails on the network adapter: after a transition it holds a
  trace, and \<^verbatim>\<open>getTraceVisible\<close> panics all the same.
\<close>

theorem player_getTraceVisible_counterexample:
  "Player_transition quietPlayer voteVerifiedEvent = Ret (drivenPlayer, None, None)
   \<and> getTrace (ConcretePlayer drivenPlayer :: (unit, unit) ioAutomata)
       = Ret \<lparr>events = [voteVerifiedEvent]\<rparr>
   \<and> getTraceVisible (ConcretePlayer drivenPlayer :: (unit, unit) ioAutomata) = Panic Unsupported"
  by (simp add: quietPlayer_driven Player_getTraceVisible_def Player_getTrace_def drivenPlayer_def)

text \<open>
  C5, amended. Only the single-listener adapter supports \<^verbatim>\<open>getTraceVisible\<close>: in every state
  it returns the visible trace \<^verbatim>\<open>savedTrace\<close>; a transition that reports no panic appends the
  same pair of input and output to the hidden and to the visible trace (the visible one
  also holds the events dispatched in between); and \<^verbatim>\<open>resetTrace\<close> empties both. The network
  adapter keeps one trace: its \<^verbatim>\<open>getTraceVisible\<close> panics ("unsupported") in every state and
  its \<^verbatim>\<open>resetTrace\<close> sets that trace to nil.
\<close>

theorem getTraceVisible_by_adapter:
  "getTraceVisible (Concrete w) = Ret (savedTrace w)
   \<and> (Concrete_transition w e = (w', None, None) \<longrightarrow>
        (\<exists>out xs. events (savedHiddenTrace w') = events (savedHiddenTrace w) @ [e, out]
                 \<and> events (savedTrace w') = events (savedTrace w) @ xs @ [e, out]))
   \<and> getTrace (resetTrace (Concrete w)) = Ret emptyTrace
   \<and> getTraceVisible (resetTrace (Concrete w)) = Ret emptyTrace
   \<and> getTraceVisible (ConcretePlayer p) = Panic Unsupported
   \<and> resetTrace (ConcretePlayer p) = ConcretePlayer (p\<lparr>p_savedTrace := None\<rparr>)"
  using Concrete_transition_parallel [of w e w']
  by (simp add: Concrete_getTraceVisible_def Concrete_getTrace_def Concrete_resetTrace_def
      Player_getTraceVisible_def Player_resetTrace_def)

theorem getTraceVisible_by_adapter_witness:
  "Concrete_transition scenarioMachine voteVerifiedEvent = (drivenMachine, None, None)
   \<and> getTraceVisible (Concrete scenarioMachine :: (unit, unit) ioAutomata) = Ret emptyTrace
   \<and> (\<exists>out xs. events (savedHiddenTrace drivenMachine) = [voteVerifiedEvent, out]
                 \<and> events (savedTrace drivenMachine) = xs @ [voteVerifiedEvent, out])
   \<and> getTraceVisible (resetTrace (Concrete scenarioMachine :: (unit, unit) ioAutomata))
       = Ret emptyTrace
   \<and> getTraceVisible (ConcretePlayer quietPlayer :: (unit, unit) ioAutomata) = Panic Unsupported"
  using getTraceVisible_by_adapter [of scenarioMachine voteVerifiedEvent drivenMachine quietPlayer]
    scenarioMachine_driven
  by (simp add: scenarioMachine_def emptyTrace_def)

subsection \<open>The trace of a network adapter that has not run\<close>

text \<open>
  C9. A network adapter whose \<^verbatim>\<open>savedTrace\<close> is nil, as it is in a freshly constructed
  adapter and after \<^verbatim>\<open>resetTrace\<close>, panics in \<^verbatim>\<open>getTrace\<close> on the nil pointer instead of
  returning an empty trace. \<^verbatim>\<open>Validate\<close> on such an adapter, for a test case of either
  accepted shape, panics where it reads the length of the existing trace.
\<close>

theorem fresh_player_getTrace_panics:
  assumes "p_savedTrace w = None"
  shows "getTrace (ConcretePlayer w) = Panic NilPointerDereference
       \<and> getTrace (resetTrace (ConcretePlayer w')) = Panic NilPointerDereference
       \<and> (length (inputs testCase) = length (expectedOutputs testCase)
            \<or> length (inputs testCase) = length (expectedOutputs testCase) + 1
          \<longrightarrow> Validate testCase (ConcretePlayer w) = Panic NilPointerDereference)"
  using assms
  by (auto simp: Player_getTrace_def Player_resetTrace_def Validate_def ValidateAsExtension_def)

theorem fresh_player_getTrace_panics_witness:
  "p_savedTrace (freshPlayer \<lparr>network = (), submitTop = quietSubmitTop\<rparr>) = None
   \<and> getTrace (ConcretePlayer quietPlayer :: (unit, unit) ioAutomata) = Panic NilPointerDereference
   \<and> getTrace (ConcretePlayer drivenPlayer :: (unit, unit) ioAutomata)
       = Ret \<lparr>events = [voteVerifiedEvent]\<rparr>
   \<and> getTrace (resetTrace (ConcretePlayer drivenPlayer :: (unit, unit) ioAutomata))
       = Panic NilPointerDereference
   \<and> length (inputs crashCase) = length (expectedOutputs crashCase) + 1
   \<and> Validate crashCase (ConcretePlayer quietPlayer :: (unit, unit) ioAutomata)
       = Panic NilPointerDereference"
  using fresh_player_getTrace_panics [of quietPlayer drivenPlayer crashCase]
  by (simp add: quietPlayer_def freshPlayer_def crashCase_def drivenPlayer_def Player_getTrace_def)

subsection \<open>Direct match\<close>

lemma wf_from_iff: "checkWellFormed_from es = None \<longleftrightarrow> None \<notin> set es"
  by (induction es) auto

lemma wf_iff: "checkWellFormed tr = None \<longleftrightarrow> None \<notin> set (events tr)"
  by (simp add: checkWellFormed_def wf_from_iff)

lemma wf_nth: "checkWellFormed tr = None \<Longrightarrow> i < length (events tr) \<Longrightarrow> \<exists>a. events tr ! i = Some a"
  by (metis wf_iff nth_mem not_None_eq)

lemma all_from_Suc:
  "(\<forall>j. i \<le> j \<longrightarrow> P j) \<longleftrightarrow> P i \<and> (\<forall>j. Suc i \<le> j \<longrightarrow> P j)"
  by (metis Suc_le_eq le_eq_less_or_eq)

text \<open>
  When the loop answers true: from index \<open>i\<close> on, at every index within the bounds of both
  traces, both events are there (not nil) and their fingerprints agree.
\<close>

lemma directMatch_loop_true_iff:
  "directMatch_loop d tr i = Ret (True, [], None) \<longleftrightarrow>
     (\<forall>j. i \<le> j \<longrightarrow> j < length (events tr) \<and> j < length (events d) \<longrightarrow>
        (\<exists>a b. events tr ! j = Some a \<and> events d ! j = Some b
              \<and> ComparableStr a = ComparableStr b))"
proof (induction d tr i rule: directMatch_loop.induct)
  case (1 d tr i)
  show ?case
  proof (cases "i < length (events tr) \<and> i < length (events d)")
    case False
    then have "directMatch_loop d tr i = Ret (True, [], None)"
      by (auto simp: directMatch_loop.simps [of d tr i] trace_length_def)
    moreover from False have "\<And>j. i \<le> j \<Longrightarrow> \<not> (j < length (events tr) \<and> j < length (events d))"
      by auto
    ultimately show ?thesis by blast
  next
    case True
    show ?thesis
    proof (cases "\<exists>a b. events tr ! i = Some a \<and> events d ! i = Some b
              \<and> ComparableStr a = ComparableStr b")
      case False
      with True have "directMatch_loop d tr i \<noteq> Ret (True, [], None)"
        by (auto simp: directMatch_loop.simps [of d tr i] trace_length_def split: option.splits)
      with False True show ?thesis by blast
    next
      case here: True
      then obtain a b where ab: "events tr ! i = Some a" "events d ! i = Some b"
        "ComparableStr a = ComparableStr b" by blast
      with True have step: "directMatch_loop d tr i = directMatch_loop d tr (Suc i)"
        by (simp add: directMatch_loop.simps [of d tr i] trace_length_def)
      from True ab have "directMatch_loop d tr (Suc i) = Ret (True, [], None) \<longleftrightarrow>
         (\<forall>j. Suc i \<le> j \<longrightarrow> j < length (events tr) \<and> j < length (events d) \<longrightarrow>
            (\<exists>a b. events tr ! j = Some a \<and> events d ! j = Some b
              \<and> ComparableStr a = ComparableStr b))"
        using "1.IH" [of a b] by (simp add: trace_length_def)
      with step here show ?thesis
        by (subst all_from_Suc) simp
    qed
  qed
qed


text \<open>On traces without nil events the loop does not panic and reports no error.\<close>

lemma directMatch_loop_wf:
  assumes "checkWellFormed tr = None" and "checkWellFormed d = None"
  shows "\<exists>b. directMatch_loop d tr i = Ret (b, [], None)"
  using assms
proof (induction d tr i rule: directMatch_loop.induct)
  case (1 d tr i)
  show ?case
  proof (cases "i < length (events tr) \<and> i < length (events d)")
    case False
    then show ?thesis
      by (auto simp: directMatch_loop.simps [of d tr i] trace_length_def)
  next
    case True
    with wf_nth [OF "1.prems"(1), of i] wf_nth [OF "1.prems"(2), of i]
    obtain a b where ab: "events tr ! i = Some a" "events d ! i = Some b" by blast
    show ?thesis
    proof (cases "ComparableStr a = ComparableStr b")
      case False
      with True ab have "directMatch_loop d tr i = Ret (False, [], None)"
        by (simp add: directMatch_loop.simps [of d tr i] trace_length_def)
      then show ?thesis by blast
    next
      case eq: True
      with True ab have "directMatch_loop d tr i = directMatch_loop d tr (Suc i)"
        by (simp add: directMatch_loop.simps [of d tr i] trace_length_def)
      moreover from True ab eq "1.prems" have "\<exists>b. directMatch_loop d tr (Suc i) = Ret (b, [], None)"
        using "1.IH" [of a b] by (simp add: trace_length_def)
      ultimately show ?thesis by simp
    qed
  qed
qed

text \<open>
  C4, amended. For a candidate trace and a reference trace without nil events,
  \<^verbatim>\<open>containsTrace\<close> returns true if and only if the fingerprints agree at every index within
  the bounds of both traces (otherwise it returns false, in both cases with an empty
  message and a nil error). Candidate events beyond the length of the reference are
  unconstrained, and so are reference events beyond the length of the candidate: a
  candidate that is a proper prefix of the reference is accepted.
\<close>

theorem directMatch_containsTrace_iff:
  assumes t: "checkWellFormed tr = None" and d: "checkWellFormed d = None"
  shows "directMatch_containsTrace d tr =
           Ret ((\<forall>i. i < length (events tr) \<and> i < length (events d) \<longrightarrow>
                   fingerprint (events tr ! i) = fingerprint (events d ! i)), [], None)"
proof -
  from directMatch_loop_wf [OF t d, of 0] obtain b where
    b: "directMatch_loop d tr 0 = Ret (b, [], None)" ..
  have "b \<longleftrightarrow> (\<forall>j. j < length (events tr) \<and> j < length (events d) \<longrightarrow>
        (\<exists>x y. events tr ! j = Some x \<and> events d ! j = Some y
              \<and> ComparableStr x = ComparableStr y))"
    using directMatch_loop_true_iff [of d tr 0] b by simp
  also have "\<dots> \<longleftrightarrow> (\<forall>i. i < length (events tr) \<and> i < length (events d) \<longrightarrow>
                   fingerprint (events tr ! i) = fingerprint (events d ! i))"
  proof (intro iff_allI iffI impI)
    fix i
    assume "i < length (events tr) \<and> i < length (events d) \<longrightarrow>
        (\<exists>x y. events tr ! i = Some x \<and> events d ! i = Some y
              \<and> ComparableStr x = ComparableStr y)"
      and "i < length (events tr) \<and> i < length (events d)"
    then show "fingerprint (events tr ! i) = fingerprint (events d ! i)"
      by (auto simp: fingerprint_def)
  next
    fix i
    assume f: "i < length (events tr) \<and> i < length (events d) \<longrightarrow>
        fingerprint (events tr ! i) = fingerprint (events d ! i)"
      and i: "i < length (events tr) \<and> i < length (events d)"
    from i wf_nth [OF t, of i] wf_nth [OF d, of i]
    obtain x y where "events tr ! i = Some x" "events d ! i = Some y" by blast
    with f i show "\<exists>x y. events tr ! i = Some x \<and> events d ! i = Some y
              \<and> ComparableStr x = ComparableStr y"
      by (simp add: fingerprint_def)
  qed
  finally show ?thesis
    using b by (simp add: directMatch_containsTrace_def)
qed

lemma directMatch_containsTrace_true_iff:
  "directMatch_containsTrace d tr = Ret (True, [], None) \<longleftrightarrow>
     (\<forall>j. j < length (events tr) \<and> j < length (events d) \<longrightarrow>
        (\<exists>a b. events tr ! j = Some a \<and> events d ! j = Some b
              \<and> ComparableStr a = ComparableStr b))"
  using directMatch_loop_true_iff [of d tr 0] by (simp add: directMatch_containsTrace_def)

text \<open>
  C8. For every trace \<open>T\<close> (a trace holds no nil event), the direct-match property built
  from \<open>T\<close> accepts \<open>T\<close>, and it accepts \<open>T\<close> extended by any further event \<open>e\<close>, a nil one
  included.
\<close>

theorem directMatch_reflexive_and_extended:
  assumes wf: "checkWellFormed T = None"
  shows "directMatch_containsTrace T T = Ret (True, [], None)
       \<and> directMatch_containsTrace T (T\<lparr>events := events T @ [e]\<rparr>) = Ret (True, [], None)"
proof
  show "directMatch_containsTrace T T = Ret (True, [], None)"
    unfolding directMatch_containsTrace_true_iff
    using wf_nth [OF wf] by fastforce
  show "directMatch_containsTrace T (T\<lparr>events := events T @ [e]\<rparr>) = Ret (True, [], None)"
    unfolding directMatch_containsTrace_true_iff
    using wf_nth [OF wf] by (fastforce simp: nth_append)
qed


lemma example_traces_wf:
  "checkWellFormed shortTrace = None" "checkWellFormed pairTrace = None"
  "checkWellFormed otherPairTrace = None"
  by (simp_all add: checkWellFormed_def shortTrace_def pairTrace_def otherPairTrace_def
      voteVerifiedEvent_def newRoundEvent_def newPeriodEvent_def)

theorem directMatch_containsTrace_iff_witness:
  "checkWellFormed shortTrace = None \<and> checkWellFormed pairTrace = None
   \<and> checkWellFormed otherPairTrace = None
   \<and> directMatch_containsTrace pairTrace shortTrace = Ret (True, [], None)
   \<and> directMatch_containsTrace pairTrace otherPairTrace = Ret (False, [], None)"
proof -
  have 1: "directMatch_containsTrace pairTrace shortTrace = Ret (True, [], None)"
    using directMatch_containsTrace_iff [OF example_traces_wf(1) example_traces_wf(2)]
    by (simp add: shortTrace_def pairTrace_def)
  have "\<not> (\<forall>i. i < length (events otherPairTrace) \<and> i < length (events pairTrace) \<longrightarrow>
            fingerprint (events otherPairTrace ! i) = fingerprint (events pairTrace ! i))"
    by (auto simp: otherPairTrace_def pairTrace_def fingerprint_def newPeriodEvent_def
        newRoundEvent_def intro!: exI [of _ 1])
  with directMatch_containsTrace_iff [OF example_traces_wf(3) example_traces_wf(2)]
  have 2: "directMatch_containsTrace pairTrace otherPairTrace = Ret (False, [], None)"
    by simp
  from example_traces_wf 1 2 show ?thesis by simp
qed

text \<open>
  C4, as the claim states it, fails for a candidate shorter than the reference: the code
  accepts the one-event prefix of a two-event reference, which has no event at index 1.
\<close>

theorem directMatch_short_candidate_counterexample:
  "directMatch_containsTrace pairTrace shortTrace = Ret (True, [], None)
   \<and> \<not> spec_directMatch pairTrace shortTrace"
  by (simp add: directMatch_containsTrace_def directMatch_loop.simps trace_length_def
      spec_directMatch_def pairTrace_def shortTrace_def voteVerifiedEvent_def upt_rec)

theorem directMatch_reflexive_and_extended_witness:
  "checkWellFormed pairTrace = None
   \<and> directMatch_containsTrace pairTrace pairTrace = Ret (True, [], None)
   \<and> directMatch_containsTrace pairTrace
        \<lparr>events = [voteVerifiedEvent, newRoundEvent, None]\<rparr> = Ret (True, [], None)"
  using directMatch_reflexive_and_extended [OF example_traces_wf(2), of None] example_traces_wf(2)
  by (simp add: pairTrace_def)

subsection \<open>The validator after the run\<close>

lemma transitionAll_err_nil:
  assumes "transitionAll a ins = Ret (a', err, panicErr)"
  shows "err = None"
proof (cases a)
  case (Concrete w)
  obtain w2 pe2 where "Concrete_transitionAll w ins = (w2, None, pe2)"
    using Concrete_transitionAll_err by blast
  with assms Concrete show ?thesis by simp
next
  case (ConcretePlayer w)
  obtain w2 pe2 where "Player_transitionAll w ins = Ret (w2, None, pe2)"
    using Player_transitionAll_err by blast
  with assms ConcretePlayer show ?thesis by simp
qed

text \<open>An adapter only appends to the trace that \<^verbatim>\<open>getTrace\<close> returns.\<close>

lemma Concrete_transition_grows:
  assumes "Concrete_transition w e = (w', err, pe)"
  shows "\<exists>xs. events (savedHiddenTrace w') = events (savedHiddenTrace w) @ xs"
  using callHandler_cases [of w e]
proof
  assume "\<exists>w1 out. callHandler w e = (w1, out, None)"
  then obtain w1 out where c: "callHandler w e = (w1, out, None)" by blast
  from Concrete_transition_returned [OF c] assms callHandler_hidden [OF c]
  show ?thesis by auto
next
  assume "\<exists>w1 r. callHandler w e = (w1, None, Some (ErrHandlerPanic r))"
  then obtain w1 r where c: "callHandler w e = (w1, None, Some (ErrHandlerPanic r))" by blast
  from Concrete_transition_panicked [OF c] assms callHandler_hidden [OF c]
  show ?thesis by auto
qed

lemma Concrete_transitionAll_grows:
  "Concrete_transitionAll w ins = (w', err, pe) \<Longrightarrow>
   \<exists>xs. events (savedHiddenTrace w') = events (savedHiddenTrace w) @ xs"
proof (induction ins arbitrary: w)
  case Nil
  then show ?case by simp
next
  case (Cons i ins)
  obtain w1 err1 pe1 where t: "Concrete_transition w i = (w1, err1, pe1)"
    by (metis prod_cases3)
  from Concrete_transition_grows [OF t] obtain xs where
    g: "events (savedHiddenTrace w1) = events (savedHiddenTrace w) @ xs" ..
  show ?case
  proof (cases "err1 \<noteq> None \<or> pe1 \<noteq> None")
    case True
    with Cons.prems t have "w' = w1" by auto
    with g show ?thesis by simp
  next
    case False
    with Cons.prems t have "Concrete_transitionAll w1 ins = (w', err, pe)" by simp
    from Cons.IH [OF this] g show ?thesis by auto
  qed
qed

lemma Player_transition_grows:
  assumes s: "p_savedTrace w = Some t0"
    and t: "Player_transition w e = Ret (w', err, pe)"
  shows "\<exists>t1 xs. p_savedTrace w' = Some t1 \<and> events t1 = events t0 @ xs"
  using callSubmitTop_cases [of "if p_t w = None then w\<lparr>p_t := Some Tracer\<rparr> else w" e]
proof
  let ?w2 = "if p_t w = None then w\<lparr>p_t := Some Tracer\<rparr> else w"
  assume "\<exists>w1 es. callSubmitTop ?w2 e = (w1, Slice es, None)"
  then obtain w3 es where c: "callSubmitTop ?w2 e = (w3, Slice es, None)" by blast
  from callSubmitTop_savedTrace [OF c] s have "p_savedTrace w3 = Some t0" by simp
  with s t c show ?thesis
    by (auto simp: Player_transition_def extend_ptr_def extend_Slice Let_def)
next
  let ?w2 = "if p_t w = None then w\<lparr>p_t := Some Tracer\<rparr> else w"
  assume "\<exists>w1 r. callSubmitTop ?w2 e = (w1, NilSlice, Some (ErrSubmitTopPanic r))"
  then obtain w3 r where c: "callSubmitTop ?w2 e = (w3, NilSlice, Some (ErrSubmitTopPanic r))"
    by blast
  from callSubmitTop_savedTrace [OF c] s have "p_savedTrace w3 = Some t0" by simp
  with s t c show ?thesis
    by (auto simp: Player_transition_def Let_def)
qed

lemma Player_transitionAll_grows:
  "p_savedTrace w = Some t0 \<Longrightarrow> Player_transitionAll w ins = Ret (w', err, pe) \<Longrightarrow>
   \<exists>t1 xs. p_savedTrace w' = Some t1 \<and> events t1 = events t0 @ xs"
proof (induction ins arbitrary: w t0)
  case Nil
  then show ?case by simp
next
  case (Cons i ins)
  from Player_transition_err [of w i] obtain w1 pe1 where
    t: "Player_transition w i = Ret (w1, None, pe1)" by blast
  from Player_transition_grows [OF Cons.prems(1) t] obtain t1 xs where
    g: "p_savedTrace w1 = Some t1" "events t1 = events t0 @ xs" by blast
  show ?case
  proof (cases pe1)
    case (Some p)
    with Cons.prems(2) t have "w' = w1" by simp
    with g show ?thesis by simp
  next
    case None
    with Cons.prems(2) t have "Player_transitionAll w1 ins = Ret (w', err, pe)" by simp
    from Cons.IH [OF g(1) this] g(2) show ?thesis by auto
  qed
qed

text \<open>The trace an automaton holds after a run extends the one it held before.\<close>

lemma transitionAll_grows:
  assumes g0: "getTrace a = Ret t0"
    and run: "transitionAll a ins = Ret (a', err, pe)"
    and g1: "getTrace a' = Ret t1"
  shows "\<exists>xs. events t1 = events t0 @ xs"
proof (cases a)
  case (Concrete w)
  obtain w' err' pe' where r: "Concrete_transitionAll w ins = (w', err', pe')"
    by (metis prod_cases3)
  with run Concrete have "a' = Concrete w'" by simp
  with Concrete_transitionAll_grows [OF r] g0 g1 Concrete show ?thesis
    by (simp add: Concrete_getTrace_def)
next
  case (ConcretePlayer w)
  with g0 have s: "p_savedTrace w = Some t0"
    by (simp add: Player_getTrace_def split: option.splits)
  from run ConcretePlayer obtain w' where
    r: "Player_transitionAll w ins = Ret (w', err, pe)" and a': "a' = ConcretePlayer w'"
    by (auto split: result.splits)
  from Player_transitionAll_grows [OF s r] g1 a' show ?thesis
    by (auto simp: Player_getTrace_def)
qed

lemma checkSafetyProps_all_accept:
  "\<forall>sp \<in> set sps. \<exists>msg. sp tr = Ret (True, msg, None) \<Longrightarrow> checkSafetyProps sps tr = Ret (None, None)"
  by (induction sps) auto


text \<open>
  \<^verbatim>\<open>Validate\<close> up to line 443, for a test case of an accepted shape with a well-formed
  expected trace, on an automaton that returns its trace.
\<close>

lemma Validate_after_run:
  assumes shape: "length (inputs testCase) = length (expectedOutputs testCase)
                \<or> length (inputs testCase) = length (expectedOutputs testCase) + 1"
    and wf: "checkWellFormed (expectedFinalTrace testCase) = None"
    and g0: "getTrace automaton = Ret existingTrace"
    and run: "transitionAll automaton (inputs testCase) = Ret (automaton', err, panicErr)"
    and g1: "getTrace automaton' = Ret outputTrace"
  shows "Validate testCase automaton =
           (case judgeTrace testCase (length (events existingTrace)) outputTrace panicErr of
              Panic r \<Rightarrow> Panic r
            | Ret (invalidErr, runtimeErr) \<Rightarrow> Ret (automaton', invalidErr, runtimeErr))"
proof -
  from transitionAll_err_nil [OF run] have "err = None" .
  with shape wf g0 run g1 show ?thesis
    by (auto simp: Validate_def ValidateAsExtension_def Let_def)
qed

text \<open>Lines 444 to 457 when the extension matches the expected trace.\<close>

lemma judgeTrace_matched:
  assumes le: "length (events existingTrace) \<le> length (events outputTrace)"
    and m: "directMatch_containsTrace (expectedFinalTrace testCase)
              \<lparr>events = drop (length (events existingTrace)) (events outputTrace)\<rparr>
            = Ret (True, info, None)"
  shows "judgeTrace testCase (length (events existingTrace)) outputTrace panicErr =
           (case crashCrossCheck testCase panicErr of
              Some invalidErr \<Rightarrow> Ret (Some invalidErr, None)
            | None \<Rightarrow>
                (case lengthCheck (trace_length outputTrace) (expectedFinalTrace testCase) panicErr of
                   Some invalidErr \<Rightarrow> Ret (Some invalidErr, None)
                 | None \<Rightarrow> checkSafetyProps (safetyProps testCase) outputTrace))"
  using le m by (simp add: judgeTrace_def Let_def)

subsection \<open>The crash expectation\<close>

text \<open>
  C2, amended. Take a test case whose expected trace is well formed, an automaton whose
  \<^verbatim>\<open>getTrace\<close> returns before and after the run (every single-listener adapter; a network
  adapter that holds a trace), and a run whose trace extension direct-matches the
  expected trace. Then: with as many inputs as expected outputs, a panic during the run
  gives the invalid verdict "panicked when not expected" and a nil runtime error; with one
  input more, a run without a panic gives the invalid verdict "did not panic when
  expected" and a nil runtime error, and a run with a panic whose extension is at least as
  long as the expected trace and whose whole trace every attached safety property accepts
  gives (nil, nil).
\<close>

theorem Validate_crash_expectation:
  assumes wf: "checkWellFormed (expectedFinalTrace testCase) = None"
    and g0: "getTrace automaton = Ret existingTrace"
    and run: "transitionAll automaton (inputs testCase) = Ret (automaton', err, panicErr)"
    and g1: "getTrace automaton' = Ret outputTrace"
    and m: "directMatch_containsTrace (expectedFinalTrace testCase)
              \<lparr>events = drop (length (events existingTrace)) (events outputTrace)\<rparr>
            = Ret (True, info, None)"
  shows "(length (inputs testCase) = length (expectedOutputs testCase) \<longrightarrow>
            (\<forall>pe. panicErr = Some pe \<longrightarrow>
               Validate testCase automaton
                 = Ret (automaton', Some (ErrPanickedUnexpected pe), None)))
       \<and> (length (inputs testCase) = length (expectedOutputs testCase) + 1 \<longrightarrow>
            (panicErr = None \<longrightarrow>
               Validate testCase automaton = Ret (automaton', Some ErrDidNotPanic, None))
          \<and> (panicErr \<noteq> None
               \<and> trace_length (expectedFinalTrace testCase)
                   \<le> length (drop (length (events existingTrace)) (events outputTrace))
               \<and> (\<forall>sp \<in> set (safetyProps testCase). \<exists>msg. sp outputTrace = Ret (True, msg, None))
             \<longrightarrow> Validate testCase automaton = Ret (automaton', None, None)))"
proof -
  from transitionAll_grows [OF g0 run g1] have le:
    "length (events existingTrace) \<le> length (events outputTrace)"
    by auto
  note J = judgeTrace_matched [OF le m, of panicErr]
  show ?thesis
  proof (intro conjI impI allI)
    fix pe
    assume shape: "length (inputs testCase) = length (expectedOutputs testCase)"
      and pe: "panicErr = Some pe"
    from shape have "length (inputs testCase) = length (expectedOutputs testCase)
                \<or> length (inputs testCase) = length (expectedOutputs testCase) + 1" ..
    from Validate_after_run [OF this wf g0 run g1] J shape pe
    show "Validate testCase automaton = Ret (automaton', Some (ErrPanickedUnexpected pe), None)"
      by (simp add: crashCrossCheck_def)
  next
    assume shape: "length (inputs testCase) = length (expectedOutputs testCase) + 1"
      and pe: "panicErr = None"
    from shape have "length (inputs testCase) = length (expectedOutputs testCase)
                \<or> length (inputs testCase) = length (expectedOutputs testCase) + 1" ..
    from Validate_after_run [OF this wf g0 run g1] J shape pe
    show "Validate testCase automaton = Ret (automaton', Some ErrDidNotPanic, None)"
      by (simp add: crashCrossCheck_def)
  next
    assume shape: "length (inputs testCase) = length (expectedOutputs testCase) + 1"
      and rest: "panicErr \<noteq> None
               \<and> trace_length (expectedFinalTrace testCase)
                   \<le> length (drop (length (events existingTrace)) (events outputTrace))
               \<and> (\<forall>sp \<in> set (safetyProps testCase). \<exists>msg. sp outputTrace = Ret (True, msg, None))"
    from rest obtain pe where pe: "panicErr = Some pe" by auto
    from rest have long: "\<not> trace_length outputTrace < trace_length (expectedFinalTrace testCase)"
      by (auto simp: trace_length_def)
    from rest have props: "checkSafetyProps (safetyProps testCase) outputTrace = Ret (None, None)"
      by (intro checkSafetyProps_all_accept) simp
    from shape have "length (inputs testCase) = length (expectedOutputs testCase)
                \<or> length (inputs testCase) = length (expectedOutputs testCase) + 1" ..
    from Validate_after_run [OF this wf g0 run g1] J shape pe long props
    show "Validate testCase automaton = Ret (automaton', None, None)"
      by (simp add: crashCrossCheck_def lengthCheck_def)
  qed
qed


subsection \<open>Runs of the example machines\<close>

lemma drivenMachine_panics:
  "Concrete_transition drivenMachine bundleMalformedEvent
     = (drivenMachine, None, Some (ErrHandlerPanic (PanicMsg ''malformed bundle'')))"
  by (simp add: Concrete_transition_def callHandler_def drivenMachine_def scenarioHandle_def
      bundleMalformedEvent_def Let_def)

lemma scenarioMachine_panics:
  "Concrete_transition scenarioMachine bundleMalformedEvent
     = (scenarioMachine\<lparr>rHandle := Some RouterHandle\<rparr>, None,
        Some (ErrHandlerPanic (PanicMsg ''malformed bundle'')))"
  by (simp add: Concrete_transition_def callHandler_def scenarioMachine_def scenarioHandle_def
      bundleMalformedEvent_def Let_def)

lemma drivenMachine_driven:
  "Concrete_transition drivenMachine timeoutEvent = (twiceDrivenMachine, None, None)"
  by (simp add: Concrete_transition_def callHandler_def drivenMachine_def twiceDrivenMachine_def
      scenarioHandle_def timeoutEvent_def extend_Slice Let_def)

lemma run_crash:
  "transitionAll (Concrete scenarioMachine :: (unit, unit) ioAutomata)
     [voteVerifiedEvent, bundleMalformedEvent]
   = Ret (Concrete drivenMachine, None, Some (ErrHandlerPanic (PanicMsg ''malformed bundle'')))"
  by (simp add: scenarioMachine_driven drivenMachine_panics)

lemma run_no_crash:
  "transitionAll (Concrete scenarioMachine :: (unit, unit) ioAutomata)
     [voteVerifiedEvent, timeoutEvent]
   = Ret (Concrete twiceDrivenMachine, None, None)"
  by (simp add: scenarioMachine_driven drivenMachine_driven)

lemma run_early_panic:
  "transitionAll (Concrete drivenMachine :: (unit, unit) ioAutomata)
     [bundleMalformedEvent, bundleMalformedEvent]
   = Ret (Concrete drivenMachine, None, Some (ErrHandlerPanic (PanicMsg ''malformed bundle'')))"
  by (simp add: drivenMachine_panics)

theorem Validate_crash_expectation_witness:
  "length (inputs unexpectedCrashCase) = length (expectedOutputs unexpectedCrashCase)
   \<and> results (transitionAll (Concrete scenarioMachine :: (unit, unit) ioAutomata)
                (inputs unexpectedCrashCase))
       = Ret (None, Some (ErrHandlerPanic (PanicMsg ''malformed bundle'')))
   \<and> results (Validate unexpectedCrashCase (Concrete scenarioMachine :: (unit, unit) ioAutomata))
       = Ret (Some (ErrPanickedUnexpected (ErrHandlerPanic (PanicMsg ''malformed bundle''))), None)
   \<and> length (inputs noCrashCase) = length (expectedOutputs noCrashCase) + 1
   \<and> results (transitionAll (Concrete scenarioMachine :: (unit, unit) ioAutomata)
                (inputs noCrashCase))
       = Ret (None, None)
   \<and> results (Validate noCrashCase (Concrete scenarioMachine :: (unit, unit) ioAutomata))
       = Ret (Some ErrDidNotPanic, None)
   \<and> length (inputs crashCase) = length (expectedOutputs crashCase) + 1
   \<and> results (transitionAll (Concrete scenarioMachine :: (unit, unit) ioAutomata)
                (inputs crashCase))
       = Ret (None, Some (ErrHandlerPanic (PanicMsg ''malformed bundle'')))
   \<and> results (Validate crashCase (Concrete scenarioMachine :: (unit, unit) ioAutomata))
       = Ret (None, None)"
proof -
  have g0: "getTrace (Concrete scenarioMachine :: (unit, unit) ioAutomata) = Ret emptyTrace"
    by (simp add: Concrete_getTrace_def scenarioMachine_def)
  have g1: "getTrace (Concrete drivenMachine :: (unit, unit) ioAutomata)
              = Ret \<lparr>events = [voteVerifiedEvent, newRoundEvent]\<rparr>"
    by (simp add: Concrete_getTrace_def drivenMachine_def)
  have g2: "getTrace (Concrete twiceDrivenMachine :: (unit, unit) ioAutomata)
              = Ret \<lparr>events = [voteVerifiedEvent, newRoundEvent, timeoutEvent, newRoundEvent]\<rparr>"
    by (simp add: Concrete_getTrace_def twiceDrivenMachine_def)

  have wf_a: "checkWellFormed (expectedFinalTrace unexpectedCrashCase) = None"
    by code_simp
  have run_a: "transitionAll (Concrete scenarioMachine :: (unit, unit) ioAutomata)
                 (inputs unexpectedCrashCase)
               = Ret (Concrete drivenMachine, None,
                      Some (ErrHandlerPanic (PanicMsg ''malformed bundle'')))"
    using run_crash by (simp add: unexpectedCrashCase_def)
  have m_a: "directMatch_containsTrace (expectedFinalTrace unexpectedCrashCase)
               \<lparr>events = drop (length (events emptyTrace))
                           (events \<lparr>events = [voteVerifiedEvent, newRoundEvent]\<rparr>)\<rparr>
             = Ret (True, [], None)"
    by code_simp
  from Validate_crash_expectation [OF wf_a g0 run_a g1 m_a]
  have a: "Validate unexpectedCrashCase (Concrete scenarioMachine :: (unit, unit) ioAutomata)
       = Ret (Concrete drivenMachine,
              Some (ErrPanickedUnexpected (ErrHandlerPanic (PanicMsg ''malformed bundle''))), None)"
    by (simp add: unexpectedCrashCase_def)

  have wf_b: "checkWellFormed (expectedFinalTrace noCrashCase) = None"
    by code_simp
  have run_b: "transitionAll (Concrete scenarioMachine :: (unit, unit) ioAutomata)
                 (inputs noCrashCase)
               = Ret (Concrete twiceDrivenMachine, None, None)"
    using run_no_crash by (simp add: noCrashCase_def)
  have m_b: "directMatch_containsTrace (expectedFinalTrace noCrashCase)
               \<lparr>events = drop (length (events emptyTrace))
                  (events \<lparr>events = [voteVerifiedEvent, newRoundEvent, timeoutEvent,
                                     newRoundEvent]\<rparr>)\<rparr>
             = Ret (True, [], None)"
    by code_simp
  from Validate_crash_expectation [OF wf_b g0 run_b g2 m_b]
  have b: "Validate noCrashCase (Concrete scenarioMachine :: (unit, unit) ioAutomata)
       = Ret (Concrete twiceDrivenMachine, Some ErrDidNotPanic, None)"
    by (simp add: noCrashCase_def)

  have wf_c: "checkWellFormed (expectedFinalTrace crashCase) = None"
    by code_simp
  have run_c: "transitionAll (Concrete scenarioMachine :: (unit, unit) ioAutomata)
                 (inputs crashCase)
               = Ret (Concrete drivenMachine, None,
                      Some (ErrHandlerPanic (PanicMsg ''malformed bundle'')))"
    using run_crash by (simp add: crashCase_def)
  have m_c: "directMatch_containsTrace (expectedFinalTrace crashCase)
               \<lparr>events = drop (length (events emptyTrace))
                           (events \<lparr>events = [voteVerifiedEvent, newRoundEvent]\<rparr>)\<rparr>
             = Ret (True, [], None)"
    by code_simp
  have len_c: "trace_length (expectedFinalTrace crashCase) = 2"
    by code_simp
  from Validate_crash_expectation [OF wf_c g0 run_c g1 m_c] len_c
  have c: "Validate crashCase (Concrete scenarioMachine :: (unit, unit) ioAutomata)
       = Ret (Concrete drivenMachine, None, None)"
    by (simp add: crashCase_def emptyTrace_def ioPropAll_containsTrace_def)

  from a b c run_a run_b run_c show ?thesis
    by (simp add: unexpectedCrashCase_def noCrashCase_def crashCase_def)
qed

text \<open>
  C2, as the claim states it, fails when the trace diverges before the panic: the machine
  answers \<^verbatim>\<open>voteVerified\<close> with \<^verbatim>\<open>newRound\<close> where \<^verbatim>\<open>newPeriod\<close> is expected and then panics on
  the second input; inputs and expected outputs are equally many, and the verdict is the
  divergence of the traces, not "panicked when not expected".
\<close>

theorem Validate_diverged_before_panic_counterexample:
  "length (inputs divergeCase) = length (expectedOutputs divergeCase)
   \<and> results (transitionAll (Concrete scenarioMachine :: (unit, unit) ioAutomata)
                (inputs divergeCase))
       = Ret (None, Some (ErrHandlerPanic (PanicMsg ''malformed bundle'')))
   \<and> results (Validate divergeCase (Concrete scenarioMachine :: (unit, unit) ioAutomata))
       = Ret (Some (errIOTraceDiverge
               (''{'' @ [CHR 0x0A, CHR 0x09] @ ''voteVerified |'' @ [CHR 0x0A, CHR 0x09]
                @ ''newPeriod |'' @ [CHR 0x09] @ ''bundleMalformed |'' @ [CHR 0x0A, CHR 0x09]
                @ ''newPeriod |}'' @ [CHR 0x0A])
               (''{'' @ [CHR 0x0A, CHR 0x09] @ ''voteVerified |'' @ [CHR 0x0A, CHR 0x09]
                @ ''newRound |}'' @ [CHR 0x0A])), None)"
  by code_simp

subsection \<open>The length of the produced trace\<close>

text \<open>
  C3, amended. Take an automaton that held no events before the run (so the extension
  is its whole trace), a test case of an accepted shape with a well-formed expected trace,
  and a run whose extension direct-matches the expected trace but is shorter than it. Then
  \<^verbatim>\<open>Validate\<close> returns an invalid verdict and a nil runtime error: "panicked early" when a
  panic occurred and one was expected (one input more than expected outputs), the distinct
  too-short diagnostic when no panic occurred and none was expected; in the two other
  cases the verdict of the crash cross-check comes first.
\<close>

theorem Validate_length_check:
  assumes wf: "checkWellFormed (expectedFinalTrace testCase) = None"
    and g0: "getTrace automaton = Ret existingTrace"
    and fresh: "events existingTrace = []"
    and run: "transitionAll automaton (inputs testCase) = Ret (automaton', err, panicErr)"
    and g1: "getTrace automaton' = Ret outputTrace"
    and m: "directMatch_containsTrace (expectedFinalTrace testCase)
              \<lparr>events = drop (length (events existingTrace)) (events outputTrace)\<rparr>
            = Ret (True, info, None)"
    and short: "length (drop (length (events existingTrace)) (events outputTrace))
                  < trace_length (expectedFinalTrace testCase)"
  shows "(length (inputs testCase) = length (expectedOutputs testCase) + 1 \<longrightarrow>
            (\<forall>pe. panicErr = Some pe \<longrightarrow>
               Validate testCase automaton
                 = Ret (automaton',
                        Some (ErrPanickedEarly (trace_length outputTrace)
                                (trace_length (expectedFinalTrace testCase)) pe), None)))
       \<and> (length (inputs testCase) = length (expectedOutputs testCase) \<longrightarrow>
            (panicErr = None \<longrightarrow>
               Validate testCase automaton
                 = Ret (automaton',
                        Some (ErrTraceTooShort (trace_length outputTrace)
                                (trace_length (expectedFinalTrace testCase))), None)))
       \<and> (length (inputs testCase) = length (expectedOutputs testCase)
            \<or> length (inputs testCase) = length (expectedOutputs testCase) + 1 \<longrightarrow>
            (\<exists>invalidErr. Validate testCase automaton = Ret (automaton', Some invalidErr, None)))"
proof -
  from fresh have le: "length (events existingTrace) \<le> length (events outputTrace)"
    by simp
  note J = judgeTrace_matched [OF le m, of panicErr]
  from short fresh have short': "trace_length outputTrace < trace_length (expectedFinalTrace testCase)"
    by (simp add: trace_length_def)
  have V: "Validate testCase automaton =
             (case crashCrossCheck testCase panicErr of
                Some invalidErr \<Rightarrow> Ret (automaton', Some invalidErr, None)
              | None \<Rightarrow>
                  (case panicErr of
                     Some pe \<Rightarrow>
                       Ret (automaton',
                            Some (ErrPanickedEarly (trace_length outputTrace)
                                    (trace_length (expectedFinalTrace testCase)) pe), None)
                   | None \<Rightarrow>
                       Ret (automaton',
                            Some (ErrTraceTooShort (trace_length outputTrace)
                                    (trace_length (expectedFinalTrace testCase))), None)))"
    if "length (inputs testCase) = length (expectedOutputs testCase)
        \<or> length (inputs testCase) = length (expectedOutputs testCase) + 1"
    using Validate_after_run [OF that wf g0 run g1] J short'
    by (simp add: lengthCheck_def split: option.splits)
  show ?thesis
  proof (intro conjI impI allI)
    fix pe
    assume "length (inputs testCase) = length (expectedOutputs testCase) + 1"
      and "panicErr = Some pe"
    with V show "Validate testCase automaton
                 = Ret (automaton',
                        Some (ErrPanickedEarly (trace_length outputTrace)
                                (trace_length (expectedFinalTrace testCase)) pe), None)"
      by (simp add: crashCrossCheck_def)
  next
    assume "length (inputs testCase) = length (expectedOutputs testCase)"
      and "panicErr = None"
    with V show "Validate testCase automaton
                 = Ret (automaton',
                        Some (ErrTraceTooShort (trace_length outputTrace)
                                (trace_length (expectedFinalTrace testCase))), None)"
      by (simp add: crashCrossCheck_def)
  next
    assume "length (inputs testCase) = length (expectedOutputs testCase)
            \<or> length (inputs testCase) = length (expectedOutputs testCase) + 1"
    from V [OF this]
    show "\<exists>invalidErr. Validate testCase automaton = Ret (automaton', Some invalidErr, None)"
      by (simp split: option.splits)
  qed
qed

lemma strictPlayer_idle:
  "Player_transition strictPlayer bundleMalformedEvent
     = Ret (idlePlayer, None, Some (ErrSubmitTopPanic (PanicMsg ''malformed bundle'')))"
  by (simp add: Player_transition_def strictPlayer_def freshPlayer_def idlePlayer_def
      callSubmitTop_def strictSubmitTop_def bundleMalformedEvent_def Let_def)

lemma idlePlayer_busy:
  "Player_transition idlePlayer voteVerifiedEvent = Ret (busyPlayer, None, None)"
  by (simp add: Player_transition_def idlePlayer_def busyPlayer_def callSubmitTop_def
      strictSubmitTop_def voteVerifiedEvent_def extend_ptr_def extend_Slice emptyTrace_def Let_def)

theorem Validate_length_check_witness:
  "events emptyTrace = []
   \<and> Player_transition strictPlayer bundleMalformedEvent
       = Ret (idlePlayer, None, Some (ErrSubmitTopPanic (PanicMsg ''malformed bundle'')))
   \<and> length (inputs earlyPanicCase) = length (expectedOutputs earlyPanicCase) + 1
   \<and> results (transitionAll (Concrete scenarioMachine :: (unit, unit) ioAutomata)
                (inputs earlyPanicCase))
       = Ret (None, Some (ErrHandlerPanic (PanicMsg ''malformed bundle'')))
   \<and> results (Validate earlyPanicCase (Concrete scenarioMachine :: (unit, unit) ioAutomata))
       = Ret (Some (ErrPanickedEarly 0 2 (ErrHandlerPanic (PanicMsg ''malformed bundle''))), None)
   \<and> length (inputs onePairCase) = length (expectedOutputs onePairCase)
   \<and> results (transitionAll (ConcretePlayer idlePlayer :: (unit, unit) ioAutomata)
                (inputs onePairCase))
       = Ret (None, None)
   \<and> results (Validate onePairCase (ConcretePlayer idlePlayer :: (unit, unit) ioAutomata))
       = Ret (Some (ErrTraceTooShort 1 2), None)"
proof -
  have e: "events emptyTrace = []"
    by (simp add: emptyTrace_def)
  have g0: "getTrace (Concrete scenarioMachine :: (unit, unit) ioAutomata) = Ret emptyTrace"
    by (simp add: Concrete_getTrace_def scenarioMachine_def)
  have wf_a: "checkWellFormed (expectedFinalTrace earlyPanicCase) = None"
    by code_simp
  have run_a: "transitionAll (Concrete scenarioMachine :: (unit, unit) ioAutomata)
                 (inputs earlyPanicCase)
               = Ret (Concrete (scenarioMachine\<lparr>rHandle := Some RouterHandle\<rparr>), None,
                      Some (ErrHandlerPanic (PanicMsg ''malformed bundle'')))"
    by (simp add: earlyPanicCase_def scenarioMachine_panics)
  have g1: "getTrace (Concrete (scenarioMachine\<lparr>rHandle := Some RouterHandle\<rparr>)
                      :: (unit, unit) ioAutomata) = Ret emptyTrace"
    by (simp add: Concrete_getTrace_def scenarioMachine_def)
  have m_a: "directMatch_containsTrace (expectedFinalTrace earlyPanicCase)
               \<lparr>events = drop (length (events emptyTrace)) (events emptyTrace)\<rparr>
             = Ret (True, [], None)"
    by code_simp
  have len_a: "trace_length (expectedFinalTrace earlyPanicCase) = 2"
    by code_simp
  have short_a: "length (drop (length (events emptyTrace)) (events emptyTrace))
                   < trace_length (expectedFinalTrace earlyPanicCase)"
    by (simp add: len_a e)
  from Validate_length_check [OF wf_a g0 e run_a g1 m_a short_a] len_a
  have a: "Validate earlyPanicCase (Concrete scenarioMachine :: (unit, unit) ioAutomata)
       = Ret (Concrete (scenarioMachine\<lparr>rHandle := Some RouterHandle\<rparr>),
              Some (ErrPanickedEarly 0 2 (ErrHandlerPanic (PanicMsg ''malformed bundle''))), None)"
    by (simp add: earlyPanicCase_def trace_length_def e)

  have h0: "getTrace (ConcretePlayer idlePlayer :: (unit, unit) ioAutomata) = Ret emptyTrace"
    by (simp add: Player_getTrace_def idlePlayer_def)
  have wf_b: "checkWellFormed (expectedFinalTrace onePairCase) = None"
    by code_simp
  have run_b: "transitionAll (ConcretePlayer idlePlayer :: (unit, unit) ioAutomata)
                 (inputs onePairCase)
               = Ret (ConcretePlayer busyPlayer, None, None)"
    by (simp add: onePairCase_def idlePlayer_busy)
  have h1: "getTrace (ConcretePlayer busyPlayer :: (unit, unit) ioAutomata)
              = Ret \<lparr>events = [voteVerifiedEvent]\<rparr>"
    by (simp add: Player_getTrace_def busyPlayer_def)
  have m_b: "directMatch_containsTrace (expectedFinalTrace onePairCase)
               \<lparr>events = drop (length (events emptyTrace))
                           (events \<lparr>events = [voteVerifiedEvent]\<rparr>)\<rparr>
             = Ret (True, [], None)"
    by code_simp
  have len_b: "trace_length (expectedFinalTrace onePairCase) = 2"
    by code_simp
  have short_b: "length (drop (length (events emptyTrace))
                           (events \<lparr>events = [voteVerifiedEvent]\<rparr>))
                   < trace_length (expectedFinalTrace onePairCase)"
    by (simp add: len_b e)
  from Validate_length_check [OF wf_b h0 e run_b h1 m_b short_b] len_b
  have b: "Validate onePairCase (ConcretePlayer idlePlayer :: (unit, unit) ioAutomata)
       = Ret (ConcretePlayer busyPlayer, Some (ErrTraceTooShort 1 2), None)"
    by (simp add: onePairCase_def trace_length_def)

  from e a b run_a run_b strictPlayer_idle show ?thesis
    by (simp add: earlyPanicCase_def onePairCase_def)
qed

text \<open>
  C3, as the claim states it, fails where the panic was not expected: one input, one
  expected output, the machine panics on the input. The extension is empty, shorter than
  the two expected events, and a panic occurred, but the verdict is "panicked when not
  expected", the crash cross-check of lines 459 to 464, not "panicked early".
\<close>

theorem Validate_panic_unexpected_not_early_counterexample:
  "length (inputs unexpectedEarlyCase) = length (expectedOutputs unexpectedEarlyCase)
   \<and> getTrace (Concrete scenarioMachine :: (unit, unit) ioAutomata) = Ret emptyTrace
   \<and> transitionAll (Concrete scenarioMachine :: (unit, unit) ioAutomata)
        (inputs unexpectedEarlyCase)
       = Ret (Concrete (scenarioMachine\<lparr>rHandle := Some RouterHandle\<rparr>), None,
              Some (ErrHandlerPanic (PanicMsg ''malformed bundle'')))
   \<and> getTrace (Concrete (scenarioMachine\<lparr>rHandle := Some RouterHandle\<rparr>)
                 :: (unit, unit) ioAutomata) = Ret emptyTrace
   \<and> trace_length (expectedFinalTrace unexpectedEarlyCase) = 2
   \<and> results (Validate unexpectedEarlyCase (Concrete scenarioMachine :: (unit, unit) ioAutomata))
       = Ret (Some (ErrPanickedUnexpected (ErrHandlerPanic (PanicMsg ''malformed bundle''))), None)"
proof -
  have "trace_length (expectedFinalTrace unexpectedEarlyCase) = 2
   \<and> results (Validate unexpectedEarlyCase (Concrete scenarioMachine :: (unit, unit) ioAutomata))
       = Ret (Some (ErrPanickedUnexpected (ErrHandlerPanic (PanicMsg ''malformed bundle''))), None)"
    by code_simp
  moreover have "transitionAll (Concrete scenarioMachine :: (unit, unit) ioAutomata)
        (inputs unexpectedEarlyCase)
       = Ret (Concrete (scenarioMachine\<lparr>rHandle := Some RouterHandle\<rparr>), None,
              Some (ErrHandlerPanic (PanicMsg ''malformed bundle'')))"
    by (simp add: unexpectedEarlyCase_def scenarioMachine_panics)
  moreover have "getTrace (Concrete scenarioMachine :: (unit, unit) ioAutomata) = Ret emptyTrace"
    "getTrace (Concrete (scenarioMachine\<lparr>rHandle := Some RouterHandle\<rparr>)
                 :: (unit, unit) ioAutomata) = Ret emptyTrace"
    by (simp_all add: Concrete_getTrace_def scenarioMachine_def)
  moreover have "length (inputs unexpectedEarlyCase) = length (expectedOutputs unexpectedEarlyCase)"
    by (simp add: unexpectedEarlyCase_def)
  ultimately show ?thesis by simp
qed

text \<open>
  On an automaton that already holds a trace, line 476 compares the length of the whole
  trace (\<^verbatim>\<open>outputTraceLen\<close>, line 445) with the expected length, not the length of the
  extension. The example machine after one transition holds two events; it panics on the
  first input of a test case that expects one pair and then a panic, so the extension is
  empty; the whole trace has the two old events, as many as expected, and the validator
  returns (nil, nil). From the fresh machine the same test case gives "panicked early".
\<close>

lemma Validate_early_panic_on_extension:
  "Concrete_transition scenarioMachine voteVerifiedEvent = (drivenMachine, None, None)
   \<and> Concrete_getTrace drivenMachine = \<lparr>events = [voteVerifiedEvent, newRoundEvent]\<rparr>
   \<and> transitionAll (Concrete drivenMachine :: (unit, unit) ioAutomata) (inputs earlyPanicCase)
       = Ret (Concrete drivenMachine, None, Some (ErrHandlerPanic (PanicMsg ''malformed bundle'')))
   \<and> trace_length (expectedFinalTrace earlyPanicCase) = 2
   \<and> results (ValidateAsExtension earlyPanicCase (Concrete drivenMachine :: (unit, unit) ioAutomata))
       = Ret (None, None)
   \<and> results (ValidateAsExtension earlyPanicCase (Concrete scenarioMachine :: (unit, unit) ioAutomata))
       = Ret (Some (ErrPanickedEarly 0 2 (ErrHandlerPanic (PanicMsg ''malformed bundle''))), None)"
proof -
  have "Concrete_getTrace drivenMachine = \<lparr>events = [voteVerifiedEvent, newRoundEvent]\<rparr>
   \<and> trace_length (expectedFinalTrace earlyPanicCase) = 2
   \<and> results (ValidateAsExtension earlyPanicCase (Concrete drivenMachine :: (unit, unit) ioAutomata))
       = Ret (None, None)
   \<and> results (ValidateAsExtension earlyPanicCase (Concrete scenarioMachine :: (unit, unit) ioAutomata))
       = Ret (Some (ErrPanickedEarly 0 2 (ErrHandlerPanic (PanicMsg ''malformed bundle''))), None)"
    by code_simp
  moreover have "transitionAll (Concrete drivenMachine :: (unit, unit) ioAutomata)
                   (inputs earlyPanicCase)
       = Ret (Concrete drivenMachine, None, Some (ErrHandlerPanic (PanicMsg ''malformed bundle'')))"
    using run_early_panic by (simp add: earlyPanicCase_def)
  ultimately show ?thesis
    using scenarioMachine_driven by simp
qed

end
